theory Spec2Isabelle
  imports Complex_Main "HOL-Library.Word"
begin

unbundle bit_operations_syntax

section \<open>C types and the global constants of the two programs\<close>

text \<open>
  The repository holds two sample programs, \<^verbatim>\<open>direct_chunk_writer.c\<close> (chunks are
  compressed by the program with zlib and written directly) and
  \<^verbatim>\<open>direct_chunk_mt_fill.c\<close> (chunks are written raw). Both are built for an LP64
  platform: \<^verbatim>\<open>int\<close> is 32 bits wide, \<^verbatim>\<open>hsize_t\<close>, \<^verbatim>\<open>size_t\<close> and \<^verbatim>\<open>uint64_t\<close> are
  64 bits wide and unsigned, so their arithmetic wraps around.
\<close>

type_synonym hsize_t = "64 word"
type_synonym size_t = "64 word"
type_synonym uint64_t = "64 word"
type_synonym uint32_t = "32 word"
type_synonym c_int = "32 word"
type_synonym byte = "8 word"

definition CHUNK_SIZE :: hsize_t where
  "CHUNK_SIZE = 10"

definition COMPRESSION_LEVEL :: nat where
  "COMPRESSION_LEVEL = 5"

definition FILL_VALUE :: c_int where
  "FILL_VALUE = - 1"

definition INT_MAX :: c_int where
  "INT_MAX = 2147483647"

definition sizeof_int :: size_t where
  "sizeof_int = 4"

section \<open>The dataset and the libraries the programs call\<close>

text \<open>
  The programs keep no data structure of their own: the dataset lives behind an HDF5
  handle (\<^verbatim>\<open>did\<close>). Its state is the record below: the current extent, the chunk
  size and fill value given at creation, and the chunk index, a map from a chunk's
  offset to the filter mask and the bytes stored for it.
\<close>

record chunk =
  filter_mask :: uint32_t
  encoded_payload :: "byte list"

record dataset =
  logical_length :: hsize_t
  chunk_size :: hsize_t
  fill_value :: c_int
  chunks :: "hsize_t \<rightharpoonup> chunk"

text \<open>
  \<^verbatim>\<open>H5Dset_extent\<close> and \<^verbatim>\<open>H5Dwrite_chunk\<close> are functions of the HDF5 library and
  \<^verbatim>\<open>compress2\<close> is a function of zlib; none of them is part of the repository. The
  programs only test whether a call returned a negative value, so the library is a
  parameter of the model: a record of the two calls, each returning either an error
  (a negative \<^verbatim>\<open>herr_t\<close>) or the dataset after the call. The error names are the
  ones of the specification's taxonomy.
\<close>

datatype store_error = ShrinkNotAllowed | UnalignedOffset | OutOfRange | PayloadTooLarge

record hdf5 =
  H5Dset_extent :: "dataset \<Rightarrow> hsize_t \<Rightarrow> store_error + dataset"
  H5Dwrite_chunk ::
    "dataset \<Rightarrow> uint32_t \<Rightarrow> hsize_t \<Rightarrow> size_t \<Rightarrow> byte list \<Rightarrow> store_error + dataset"

text \<open>
  The C runtime: whether \<^verbatim>\<open>malloc\<close> and \<^verbatim>\<open>calloc\<close> return a buffer, and zlib's
  \<^verbatim>\<open>compress2 (dest, &destLen, source, sourceLen, level)\<close>, which is given the capacity
  of the destination, the source bytes and the level, and answers with its return code
  and the bytes it wrote (their number is the new \<^verbatim>\<open>destLen\<close>).
\<close>

datatype z_ret = Z_OK | Z_STREAM_ERROR | Z_MEM_ERROR | Z_BUF_ERROR

record runtime =
  malloc_ok :: bool
  calloc_ok :: bool
  compress2 :: "nat \<Rightarrow> byte list \<Rightarrow> nat \<Rightarrow> z_ret \<times> byte list"

text \<open>
  Every \<^verbatim>\<open>goto badness\<close> of the programs returns \<^verbatim>\<open>FAIL\<close>; the model keeps which
  branch was taken. The constructors are named after the message the branch prints.
\<close>

datatype failure =
    TooManyChunks
  | OutOfMemory
  | Overflow
  | DeflateMemoryError
  | OtherDeflateError
  | LargerThanChunk
  | SetExtentFailed store_error
  | WriteChunkFailed store_error

section \<open>setup and extend_dataset\<close>

text \<open>
  \<^verbatim>\<open>setup\<close> creates the file and an empty one-dimensional dataset of unlimited
  maximum extent, chunked by \<^verbatim>\<open>CHUNK_SIZE\<close>, with fill value \<^verbatim>\<open>FILL_VALUE\<close>. The
  model starts from the dataset it leaves behind; the property lists and handles that
  \<^verbatim>\<open>setup\<close> and \<^verbatim>\<open>main\<close> open and close are left out.
\<close>

definition setup_dataset :: dataset where
  "setup_dataset =
     \<lparr>logical_length = 0, chunk_size = CHUNK_SIZE, fill_value = FILL_VALUE, chunks = Map.empty\<rparr>"

text \<open>
  \<^verbatim>\<open>extend_dataset (did, size)\<close>: passes the size on to \<^verbatim>\<open>H5Dset_extent\<close> and fails
  exactly when that call fails.
\<close>

definition extend_dataset :: "hdf5 \<Rightarrow> dataset \<Rightarrow> hsize_t \<Rightarrow> failure + dataset" where
  "extend_dataset lib did sz =
     (case H5Dset_extent lib did sz of
        Inl e \<Rightarrow> Inl (SetExtentFailed e)
      | Inr did' \<Rightarrow> Inr did')"

text \<open>The dataset a caller holds after a call of \<^verbatim>\<open>extend_dataset\<close>: a failed call
  leaves it as it was.\<close>

definition after_extend :: "hdf5 \<Rightarrow> dataset \<Rightarrow> hsize_t \<Rightarrow> dataset" where
  "after_extend lib did sz =
     (case extend_dataset lib did sz of Inl e \<Rightarrow> did | Inr did' \<Rightarrow> did')"

definition extend_all :: "hdf5 \<Rightarrow> dataset \<Rightarrow> hsize_t list \<Rightarrow> dataset" where
  "extend_all lib did szs = foldl (after_extend lib) did szs"

section \<open>direct_write\<close>

text \<open>
  The synthetic data: \<^verbatim>\<open>value = (int)(offset / CHUNK_SIZE)\<close>. The division is the
  unsigned 64-bit one; the conversion to \<^verbatim>\<open>int\<close> keeps the low 32 bits.
\<close>

definition chunk_value :: "hsize_t \<Rightarrow> c_int" where
  "chunk_value offset = ucast (offset div CHUNK_SIZE)"

definition buf_size :: size_t where
  "buf_size = CHUNK_SIZE * sizeof_int"

text \<open>
  \<^verbatim>\<open>buf_out_size = (size_t)ceil(buf_size * 1.001) + 12\<close>. The product is computed in
  double precision; \<^verbatim>\<open>buf_size\<close> is the constant 40, the product is 40.04 up to a
  rounding error far below 0.04, so its ceiling is the ceiling of the exact product.
\<close>

definition buf_out_size :: size_t where
  "buf_out_size = word_of_nat (nat \<lceil>real (unat buf_size) * 1.001\<rceil>) + 12"

text \<open>\<^verbatim>\<open>for (int i = 0; i < CHUNK_SIZE; i++) buf[i] = value;\<close>\<close>

definition fill_buf :: "c_int \<Rightarrow> c_int list" where
  "fill_buf v = replicate (unat CHUNK_SIZE) v"

text \<open>The buffer of ints read as bytes (\<^verbatim>\<open>(const Bytef *)buf\<close>, \<^verbatim>\<open>(void *)buf\<close>), on a
  little-endian machine, and the way back.\<close>

definition int_bytes :: "c_int \<Rightarrow> byte list" where
  "int_bytes v = [ucast v, ucast (drop_bit 8 v), ucast (drop_bit 16 v), ucast (drop_bit 24 v)]"

definition buf_bytes :: "c_int list \<Rightarrow> byte list" where
  "buf_bytes buf = concat (map int_bytes buf)"

definition bytes_int :: "byte \<Rightarrow> byte \<Rightarrow> byte \<Rightarrow> byte \<Rightarrow> c_int" where
  "bytes_int b0 b1 b2 b3 =
     ucast b0 OR push_bit 8 (ucast b1) OR push_bit 16 (ucast b2) OR push_bit 24 (ucast b3)"

fun bytes_buf :: "byte list \<Rightarrow> c_int list" where
  "bytes_buf (b0 # b1 # b2 # b3 # bs) = bytes_int b0 b1 b2 b3 # bytes_buf bs"
| "bytes_buf bs = []"

text \<open>The arguments of one \<^verbatim>\<open>H5Dwrite_chunk\<close> call: the filter mask, the offset, the
  declared byte count and the buffer handed over.\<close>

record write_request =
  filters :: uint32_t
  chunk_offset :: hsize_t
  data_size :: size_t
  data_buf :: "byte list"

text \<open>
  \<^verbatim>\<open>direct_write\<close> of \<^verbatim>\<open>direct_chunk_writer.c\<close>, up to its \<^verbatim>\<open>H5Dwrite_chunk\<close> call. The
  output buffer comes zeroed from \<^verbatim>\<open>calloc\<close> and \<^verbatim>\<open>compress2\<close> overwrites its first
  \<^verbatim>\<open>z_destLen\<close> bytes. The call passes \<^verbatim>\<open>buf_out_size\<close> as the byte count.
\<close>

definition writer_request :: "runtime \<Rightarrow> hsize_t \<Rightarrow> failure + write_request" where
  "writer_request rt offset =
     (let v = chunk_value offset in
      if INT_MAX <s v then Inl TooManyChunks
      else if \<not> malloc_ok rt then Inl OutOfMemory
      else if \<not> calloc_ok rt then Inl OutOfMemory
      else
        (case compress2 rt (unat buf_out_size) (buf_bytes (fill_buf v)) COMPRESSION_LEVEL of
           (z_ret, out) \<Rightarrow>
             if z_ret = Z_BUF_ERROR then Inl Overflow
             else if z_ret = Z_MEM_ERROR then Inl DeflateMemoryError
             else if z_ret \<noteq> Z_OK then Inl OtherDeflateError
             else if unat buf_size < length out then Inl LargerThanChunk
             else Inr \<lparr>filters = 0, chunk_offset = offset, data_size = buf_out_size,
                       data_buf = out @ replicate (unat buf_out_size - length out) 0\<rparr>))"

text \<open>\<^verbatim>\<open>direct_write\<close> of \<^verbatim>\<open>direct_chunk_mt_fill.c\<close>, up to its \<^verbatim>\<open>H5Dwrite_chunk\<close> call.\<close>

definition mt_fill_request :: "runtime \<Rightarrow> hsize_t \<Rightarrow> failure + write_request" where
  "mt_fill_request rt offset =
     (let v = chunk_value offset in
      if INT_MAX <s v then Inl TooManyChunks
      else if \<not> malloc_ok rt then Inl OutOfMemory
      else Inr \<lparr>filters = 0, chunk_offset = offset, data_size = buf_size,
                data_buf = buf_bytes (fill_buf v)\<rparr>)"

datatype program = Writer | MtFill

definition chunk_request :: "program \<Rightarrow> runtime \<Rightarrow> hsize_t \<Rightarrow> failure + write_request" where
  "chunk_request p rt offset =
     (case p of Writer \<Rightarrow> writer_request rt offset | MtFill \<Rightarrow> mt_fill_request rt offset)"

definition direct_write ::
  "program \<Rightarrow> hdf5 \<Rightarrow> runtime \<Rightarrow> dataset \<Rightarrow> hsize_t \<Rightarrow> failure + dataset" where
  "direct_write p lib rt did offset =
     (case chunk_request p rt offset of
        Inl e \<Rightarrow> Inl e
      | Inr rq \<Rightarrow>
          (case H5Dwrite_chunk lib did (filters rq) (chunk_offset rq) (data_size rq) (data_buf rq) of
             Inl e \<Rightarrow> Inl (WriteChunkFailed e)
           | Inr did' \<Rightarrow> Inr did'))"

section \<open>The production loop of main\<close>

text \<open>
  \<^verbatim>\<open>while (!stop) { ... }\<close>: one cycle computes the write offset and the new size from
  the 64-bit counter \<^verbatim>\<open>n_chunks\<close>, extends, writes, and increments the counter. The
  flag \<^verbatim>\<open>stop\<close> is set by a signal handler; \<open>production_loop k\<close> is the loop when the
  flag is found clear at the first \<open>k\<close> tests and set at the next one. A failed call
  leaves the loop at once. At which instant the handler runs, relative to the library
  calls of a cycle, is outside this model.
\<close>

record loop_state =
  n_chunks :: uint64_t
  dset :: dataset

definition write_offset :: "uint64_t \<Rightarrow> hsize_t" where
  "write_offset n = n * CHUNK_SIZE"

definition new_size :: "uint64_t \<Rightarrow> hsize_t" where
  "new_size n = (n + 1) * CHUNK_SIZE"

definition cycle :: "program \<Rightarrow> hdf5 \<Rightarrow> runtime \<Rightarrow> loop_state \<Rightarrow> failure + loop_state" where
  "cycle p lib rt st =
     (case extend_dataset lib (dset st) (new_size (n_chunks st)) of
        Inl e \<Rightarrow> Inl e
      | Inr d1 \<Rightarrow>
          (case direct_write p lib rt d1 (write_offset (n_chunks st)) of
             Inl e \<Rightarrow> Inl e
           | Inr d2 \<Rightarrow> Inr \<lparr>n_chunks = n_chunks st + 1, dset = d2\<rparr>))"

fun production_loop ::
  "nat \<Rightarrow> program \<Rightarrow> hdf5 \<Rightarrow> runtime \<Rightarrow> loop_state \<Rightarrow> failure + loop_state" where
  "production_loop 0 p lib rt st = Inr st"
| "production_loop (Suc k) p lib rt st =
     (case cycle p lib rt st of
        Inl e \<Rightarrow> Inl e
      | Inr st' \<Rightarrow> production_loop k p lib rt st')"

definition main_loop :: "nat \<Rightarrow> program \<Rightarrow> hdf5 \<Rightarrow> runtime \<Rightarrow> failure + loop_state" where
  "main_loop k p lib rt = production_loop k p lib rt \<lparr>n_chunks = 0, dset = setup_dataset\<rparr>"

section \<open>Two stores and a runtime to run the programs against\<close>

text \<open>
  Modelled from the spec: the store behind \<^verbatim>\<open>H5Dset_extent\<close> and \<^verbatim>\<open>H5Dwrite_chunk\<close>
  (HDF5, not in the repository), as section 4.1 of the specification describes
  \<open>extend\<close> and \<open>write_chunk\<close>. \<open>extend\<close> fails with \<open>ShrinkNotAllowed\<close> below the
  current length and otherwise updates the length. \<open>write_chunk\<close> requires an
  aligned offset and \<open>offset + chunk_size \<le> logical_length\<close>, rejects a payload
  longer than the chunk's raw length when no filter is skipped, and otherwise replaces
  the entry of the chunk index at that offset.
\<close>

definition raw_length :: "dataset \<Rightarrow> nat" where
  "raw_length d = unat (chunk_size d) * unat sizeof_int"

definition spec_extend :: "dataset \<Rightarrow> hsize_t \<Rightarrow> store_error + dataset" where
  "spec_extend d sz =
     (if sz < logical_length d then Inl ShrinkNotAllowed
      else Inr (d\<lparr>logical_length := sz\<rparr>))"

definition spec_write_chunk ::
  "dataset \<Rightarrow> uint32_t \<Rightarrow> hsize_t \<Rightarrow> size_t \<Rightarrow> byte list \<Rightarrow> store_error + dataset" where
  "spec_write_chunk d m offset sz buf =
     (if unat offset mod unat (chunk_size d) \<noteq> 0 then Inl UnalignedOffset
      else if unat (logical_length d) < unat offset + unat (chunk_size d) then Inl OutOfRange
      else if m = 0 \<and> raw_length d < unat sz then Inl PayloadTooLarge
      else Inr (d\<lparr>chunks := (chunks d)(offset \<mapsto>
                   \<lparr>filter_mask = m, encoded_payload = take (unat sz) buf\<rparr>)\<rparr>))"

definition spec_store :: hdf5 where
  "spec_store = \<lparr>H5Dset_extent = spec_extend, H5Dwrite_chunk = spec_write_chunk\<rparr>"

text \<open>
  Modelled from the spec: \<open>lookup\<close> of section 4.2, the entry of the chunk index at an
  offset, and what a reader of an uncompressed dataset sees there (section 8): the
  stored ints, or the fill value for a chunk in range that was never written.
\<close>

definition lookup :: "dataset \<Rightarrow> hsize_t \<Rightarrow> chunk option" where
  "lookup d offset = chunks d offset"

definition read_chunk :: "dataset \<Rightarrow> hsize_t \<Rightarrow> c_int list option" where
  "read_chunk d offset =
     (if unat (logical_length d) < unat offset + unat (chunk_size d) then None
      else (case lookup d offset of
              None \<Rightarrow> Some (replicate (unat (chunk_size d)) (fill_value d))
            | Some c \<Rightarrow> Some (bytes_buf (encoded_payload c))))"

text \<open>
  A store that validates nothing: the extent is set to whatever is asked for, larger
  or smaller, and a chunk write keeps the declared number of bytes of the buffer. It
  serves as a concrete library to run the programs against.
\<close>

definition unchecked_store :: hdf5 where
  "unchecked_store =
     \<lparr>H5Dset_extent = (\<lambda>d sz. Inr (d\<lparr>logical_length := sz\<rparr>)),
      H5Dwrite_chunk = (\<lambda>d m offset sz buf.
         Inr (d\<lparr>chunks := (chunks d)(offset \<mapsto>
                \<lparr>filter_mask = m, encoded_payload = take (unat sz) buf\<rparr>)\<rparr>))\<rparr>"

text \<open>
  A runtime whose allocations succeed and whose \<^verbatim>\<open>compress2\<close> answers \<^verbatim>\<open>Z_OK\<close> with
  the given stream when it fits the destination and \<^verbatim>\<open>Z_BUF_ERROR\<close> otherwise.
  \<open>zeros_deflated\<close> is the zlib stream of forty zero bytes at level 5.
\<close>

definition fixed_stream_runtime :: "byte list \<Rightarrow> runtime" where
  "fixed_stream_runtime out =
     \<lparr>malloc_ok = True, calloc_ok = True,
      compress2 = (\<lambda>cap src lvl. if cap < length out then (Z_BUF_ERROR, []) else (Z_OK, out))\<rparr>"

definition zeros_deflated :: "byte list" where
  "zeros_deflated = [120, 94, 99, 96, 32, 14, 0, 0, 0, 40, 0, 1]"

text \<open>
  A runtime with a small lossless codec, to run the deflate program on a
  \<^verbatim>\<open>compress2\<close> that a decoder can invert: a source that is ten repetitions of its
  first four bytes is encoded as the tag byte 1 and these four bytes, any other source
  as the tag byte 0 and the source itself. \<^verbatim>\<open>compress2\<close> answers \<^verbatim>\<open>Z_BUF_ERROR\<close> when
  the encoding does not fit the destination.
\<close>

definition toy_deflate :: "byte list \<Rightarrow> byte list" where
  "toy_deflate src =
     (if src = concat (replicate 10 (take 4 src)) then 1 # take 4 src else 0 # src)"


definition toy_runtime :: runtime where
  "toy_runtime =
     \<lparr>malloc_ok = True, calloc_ok = True,
      compress2 = (\<lambda>cap src lvl.
         if cap < length (toy_deflate src) then (Z_BUF_ERROR, []) else (Z_OK, toy_deflate src))\<rparr>"

text \<open>
  Modelled from the spec: the worst-case size of a deflate stream for \<open>n\<close> input
  bytes, \<open>ceil (n * 1.001) + 12\<close> (section 4.3).
\<close>

definition deflate_bound :: "nat \<Rightarrow> nat" where
  "deflate_bound n = nat \<lceil>real n * 1.001\<rceil> + 12"

text \<open>
  Modelled from the spec: what \<^verbatim>\<open>H5Dset_extent\<close> and \<^verbatim>\<open>H5Dwrite_chunk\<close> (HDF5, not
  in the repository) do when they succeed, after \<open>extend\<close> and \<open>upsert\<close> of
  sections 4.1 and 4.2, stated as properties of the library parameter. After a
  successful \<^verbatim>\<open>H5Dset_extent\<close> the extent is the requested size; when that size is
  not below the current extent, nothing else has changed (what a call that shrinks
  the dataset does to the chunks beyond the new extent is left open). A successful
  \<^verbatim>\<open>H5Dwrite_chunk\<close> replaces the index entry at the offset by the filter mask and
  the declared number of bytes of the buffer and changes nothing else.
  \<open>rejects_shrink\<close> is the further rule of the specification's \<open>extend\<close>. The
  others say nothing about when a call fails.
\<close>

definition set_extent_sets_length :: "hdf5 \<Rightarrow> bool" where
  "set_extent_sets_length lib \<longleftrightarrow>
     (\<forall>d sz d'. H5Dset_extent lib d sz = Inr d' \<longrightarrow> logical_length d' = sz)"

definition set_extent_resizes :: "hdf5 \<Rightarrow> bool" where
  "set_extent_resizes lib \<longleftrightarrow>
     (\<forall>d sz d'. logical_length d \<le> sz \<longrightarrow> H5Dset_extent lib d sz = Inr d' \<longrightarrow>
        d' = d\<lparr>logical_length := sz\<rparr>)"

definition write_chunk_replaces :: "hdf5 \<Rightarrow> bool" where
  "write_chunk_replaces lib \<longleftrightarrow>
     (\<forall>d m offset sz buf d'. H5Dwrite_chunk lib d m offset sz buf = Inr d' \<longrightarrow>
        d' = d\<lparr>chunks := (chunks d)(offset \<mapsto>
               \<lparr>filter_mask = m, encoded_payload = take (unat sz) buf\<rparr>)\<rparr>)"

definition rejects_shrink :: "hdf5 \<Rightarrow> bool" where
  "rejects_shrink lib \<longleftrightarrow>
     (\<forall>d sz. sz < logical_length d \<longrightarrow> H5Dset_extent lib d sz = Inl ShrinkNotAllowed)"

text \<open>
  The loop state after \<open>N\<close> cycles that all succeeded against such a library: the
  counter is \<open>N\<close>, the extent is the \<open>N\<close>-th write offset, and the chunk at offset
  \<open>10 * k\<close> is present for every \<open>k < N\<close>, holding what \<^verbatim>\<open>direct_write\<close> handed over
  for that offset.
\<close>

definition stored :: "program \<Rightarrow> runtime \<Rightarrow> hsize_t \<Rightarrow> chunk option" where
  "stored p rt offset =
     (case chunk_request p rt offset of
        Inl e \<Rightarrow> None
      | Inr rq \<Rightarrow> Some \<lparr>filter_mask = filters rq,
                         encoded_payload = take (unat (data_size rq)) (data_buf rq)\<rparr>)"

definition written :: "program \<Rightarrow> runtime \<Rightarrow> nat \<Rightarrow> hsize_t \<rightharpoonup> chunk" where
  "written p rt N =
     (\<lambda>offset. if unat offset mod 10 = 0 \<and> unat offset div 10 < N
        then stored p rt offset else None)"

definition loop_result :: "program \<Rightarrow> runtime \<Rightarrow> nat \<Rightarrow> loop_state" where
  "loop_result p rt N =
     \<lparr>n_chunks = of_nat N,
      dset = \<lparr>logical_length = write_offset (of_nat N), chunk_size = CHUNK_SIZE,
               fill_value = FILL_VALUE, chunks = written p rt N\<rparr>\<rparr>"

section \<open>Basic facts\<close>

subsection \<open>Buffers and bytes\<close>

lemma buf_size_value: "buf_size = 40"
  by (simp add: buf_size_def CHUNK_SIZE_def sizeof_int_def)

lemma buf_out_size_value: "buf_out_size = 53"
  by (simp add: buf_out_size_def buf_size_value)

lemma guard_dead: "\<not> (INT_MAX <s v)"
  using sint_lt[of v] by (simp add: word_sless_alt INT_MAX_def)

lemma length_int_bytes: "length (int_bytes v) = 4"
  by (simp add: int_bytes_def)

lemma length_buf_bytes: "length (buf_bytes xs) = 4 * length xs"
  by (induction xs) (simp_all add: buf_bytes_def length_int_bytes)

lemma length_raw_payload: "length (buf_bytes (fill_buf v)) = 40"
  by (simp add: length_buf_bytes fill_buf_def CHUNK_SIZE_def)

lemma bytes_int_int_bytes:
  "bytes_int (ucast v) (ucast (drop_bit 8 v)) (ucast (drop_bit 16 v)) (ucast (drop_bit 24 v)) = v"
  unfolding bytes_int_def
proof (rule bit_word_eqI)
  fix n assume "n < LENGTH(32)"
  then show "bit (ucast (ucast v :: byte) OR push_bit 8 (ucast (ucast (drop_bit 8 v) :: byte)) OR
        push_bit 16 (ucast (ucast (drop_bit 16 v) :: byte)) OR
        push_bit 24 (ucast (ucast (drop_bit 24 v) :: byte)) :: 32 word) n = bit v n"
    by (cases "n < 8"; cases "n < 16"; cases "n < 24") (auto simp add: bit_simps)
qed

lemma bytes_buf_buf_bytes: "bytes_buf (buf_bytes xs) = xs"
  by (induction xs) (simp_all add: buf_bytes_def int_bytes_def bytes_int_int_bytes)

lemma sint_chunk_value:
  "sint (chunk_value offset) = signed_take_bit 31 (int (unat offset div unat CHUNK_SIZE))"
proof -
  have "sint (ucast (offset div 10) :: 32 word) = signed_take_bit 31 (uint (offset div 10))"
    by (simp add: sint_uint unsigned_ucast_eq signed_take_bit_take_bit)
  also have "uint (offset div 10) = int (unat offset div 10)"
    by (simp add: uint_div unat_div zdiv_int)
  finally show ?thesis by (simp add: chunk_value_def CHUNK_SIZE_def)
qed

subsection \<open>The requests of direct_write\<close>

lemma runtime_allocates: "malloc_ok (fixed_stream_runtime out)"
  by (simp add: fixed_stream_runtime_def)

lemma mt_fill_request_ok:
  "malloc_ok rt \<Longrightarrow> mt_fill_request rt offset =
     Inr \<lparr>filters = 0, chunk_offset = offset, data_size = 40,
          data_buf = buf_bytes (fill_buf (chunk_value offset))\<rparr>"
  by (simp add: mt_fill_request_def Let_def guard_dead buf_size_value)

lemma writer_request_not_TooManyChunks: "writer_request rt offset \<noteq> Inl TooManyChunks"
  by (simp add: writer_request_def Let_def guard_dead split: prod.split)

lemma mt_fill_request_not_TooManyChunks: "mt_fill_request rt offset \<noteq> Inl TooManyChunks"
  by (simp add: mt_fill_request_def Let_def guard_dead)

lemma chunk_request_offset:
  "chunk_request p rt offset = Inr rq \<Longrightarrow> chunk_offset rq = offset"
  by (cases p)
    (auto simp add: chunk_request_def writer_request_def mt_fill_request_def Let_def
      split: if_splits prod.splits)

lemma stored_mt_fill:
  "malloc_ok rt \<Longrightarrow> stored MtFill rt offset =
     Some \<lparr>filter_mask = 0, encoded_payload = buf_bytes (fill_buf (chunk_value offset))\<rparr>"
  by (simp add: stored_def chunk_request_def mt_fill_request_ok length_raw_payload)

lemma writer_request_size:
  assumes "writer_request rt offset = Inr rq"
  shows "data_size rq = 53 \<and> length (data_buf rq) = 53"
  using assms
  by (auto simp add: writer_request_def Let_def buf_out_size_value buf_size_value
      split: if_splits prod.splits)

lemma writer_request_padding:
  assumes "writer_request rt offset = Inr rq"
  shows "\<exists>out. compress2 rt 53 (buf_bytes (fill_buf (chunk_value offset))) COMPRESSION_LEVEL
                 = (Z_OK, out)
             \<and> length out \<le> 40
             \<and> data_buf rq = out @ replicate (53 - length out) 0"
  using assms
  by (auto simp add: writer_request_def Let_def buf_out_size_value buf_size_value
      split: if_splits prod.splits)

lemma writer_rejects_larger:
  assumes "malloc_ok rt" and "calloc_ok rt"
      and "compress2 rt 53 (buf_bytes (fill_buf (chunk_value offset))) COMPRESSION_LEVEL
             = (Z_OK, out)"
      and "40 < length out"
  shows "writer_request rt offset = Inl LargerThanChunk"
  using assms
  by (simp add: writer_request_def Let_def guard_dead buf_out_size_value buf_size_value)

lemma writer_request_zeros:
  "writer_request (fixed_stream_runtime zeros_deflated) 0 =
     Inr \<lparr>filters = 0, chunk_offset = 0, data_size = 53,
          data_buf = zeros_deflated @ replicate 41 0\<rparr>"
  by (simp add: writer_request_def Let_def guard_dead fixed_stream_runtime_def zeros_deflated_def
      buf_out_size_value buf_size_value)


lemma toy_deflate_raw: "toy_deflate (buf_bytes (fill_buf v)) = 1 # int_bytes v"
proof -
  have "buf_bytes (fill_buf v) = concat (replicate 10 (int_bytes v))"
    by (simp add: buf_bytes_def fill_buf_def CHUNK_SIZE_def)
  moreover have "take 4 (concat (replicate 10 (int_bytes v))) = int_bytes v"
    by (simp add: int_bytes_def numeral_Bit0 numeral_Bit1 replicate_add)
  ultimately show ?thesis
    by (simp add: toy_deflate_def)
qed

lemma toy_writer_request:
  "writer_request toy_runtime offset =
     Inr \<lparr>filters = 0, chunk_offset = offset, data_size = 53,
          data_buf = (1 # int_bytes (chunk_value offset)) @ replicate 48 0\<rparr>"
  by (simp add: writer_request_def Let_def guard_dead toy_runtime_def toy_deflate_raw
      buf_out_size_value buf_size_value length_int_bytes)

lemma toy_requests:
  "\<exists>rq. chunk_request p toy_runtime offset = Inr rq"
proof (cases p)
  case Writer
  then show ?thesis by (simp add: chunk_request_def toy_writer_request)
next
  case MtFill
  have "malloc_ok toy_runtime" by (simp add: toy_runtime_def)
  with MtFill show ?thesis by (simp add: chunk_request_def mt_fill_request_ok)
qed

subsection \<open>Offsets without wrap-around\<close>

lemma unat_write_offset:
  assumes "10 * N < 18446744073709551616"
  shows "unat (write_offset (of_nat N)) = 10 * N"
proof -
  have "write_offset (of_nat N) = (of_nat (10 * N) :: 64 word)"
    by (simp add: write_offset_def CHUNK_SIZE_def)
  then have "unat (write_offset (of_nat N)) = (10 * N) mod 2 ^ 64"
    by (simp only: unat_of_nat) simp
  then show ?thesis using assms by simp
qed

lemma new_size_write_offset: "new_size (of_nat N) = write_offset (of_nat (Suc N))"
  by (simp add: new_size_def write_offset_def add.commute)

lemma unat_write_offset_word:
  assumes "unat n < 1844674407370955162"
  shows "unat (write_offset n) = unat n * 10"
proof -
  have "unat (n * 10) = (unat n * unat (10 :: 64 word)) mod 2 ^ LENGTH(64)"
    by (rule unat_word_ariths)
  then show ?thesis using assms by (simp add: write_offset_def CHUNK_SIZE_def)
qed

lemma unat_new_size_word:
  assumes "unat n < 1844674407370955161"
  shows "unat (new_size n) = unat n * 10 + 10"
proof -
  have "unat (n + 1) = unat n + 1"
    using assms by (simp add: unat_word_ariths)
  moreover have "unat ((n + 1) * 10) = (unat (n + 1) * unat (10 :: 64 word)) mod 2 ^ LENGTH(64)"
    by (rule unat_word_ariths)
  ultimately show ?thesis using assms by (simp add: new_size_def CHUNK_SIZE_def)
qed

lemma chunk_value_small:
  assumes "k < 2147483648"
  shows "sint (chunk_value (write_offset (of_nat k))) = int k"
proof -
  have "unat (write_offset (of_nat k)) = 10 * k"
    using assms by (intro unat_write_offset) simp
  then have "sint (chunk_value (write_offset (of_nat k))) = signed_take_bit 31 (int k)"
    by (simp add: sint_chunk_value CHUNK_SIZE_def)
  also have "\<dots> = int k"
    using assms by (simp add: signed_take_bit_int_eq_self)
  finally show ?thesis .
qed

subsection \<open>The two stores\<close>

lemma spec_store_effects:
  "set_extent_resizes spec_store" "write_chunk_replaces spec_store" "rejects_shrink spec_store"
  "set_extent_sets_length spec_store"
  by (auto simp add: set_extent_resizes_def write_chunk_replaces_def rejects_shrink_def
      set_extent_sets_length_def spec_store_def spec_extend_def spec_write_chunk_def
      split: if_splits)

lemma unchecked_store_effects:
  "set_extent_resizes unchecked_store" "write_chunk_replaces unchecked_store"
  by (auto simp add: set_extent_resizes_def write_chunk_replaces_def unchecked_store_def)

lemma unchecked_store_sets_length: "set_extent_sets_length unchecked_store"
  by (auto simp add: set_extent_sets_length_def unchecked_store_def)

subsection \<open>The loop, cycle by cycle\<close>

lemma production_loop_snoc:
  "production_loop (Suc k) p lib rt st =
     (case production_loop k p lib rt st of Inl e \<Rightarrow> Inl e | Inr st' \<Rightarrow> cycle p lib rt st')"
proof (induction k arbitrary: st)
  case 0
  show ?case by (simp split: sum.split)
next
  case (Suc k)
  show ?case
  proof (cases "cycle p lib rt st")
    case (Inl e)
    then show ?thesis by simp
  next
    case (Inr s1)
    have "production_loop (Suc (Suc k)) p lib rt st = production_loop (Suc k) p lib rt s1"
      using Inr by simp
    also have "\<dots> = (case production_loop k p lib rt s1 of
                        Inl e \<Rightarrow> Inl e | Inr st' \<Rightarrow> cycle p lib rt st')"
      by (rule Suc.IH)
    also have "production_loop k p lib rt s1 = production_loop (Suc k) p lib rt st"
      using Inr by simp
    finally show ?thesis .
  qed
qed

lemma written_Suc:
  assumes "10 * N < 18446744073709551616"
  shows "(written p rt N)(write_offset (of_nat N) := stored p rt (write_offset (of_nat N)))
         = written p rt (Suc N)"
proof (rule ext)
  fix offset :: hsize_t
  have u: "unat (write_offset (of_nat N)) = 10 * N"
    using assms by (rule unat_write_offset)
  show "((written p rt N)(write_offset (of_nat N) := stored p rt (write_offset (of_nat N)))) offset
         = written p rt (Suc N) offset"
  proof (cases "offset = write_offset (of_nat N)")
    case True
    then show ?thesis using u by (simp add: written_def)
  next
    case False
    then have "unat offset \<noteq> unat (write_offset (of_nat N))"
      by (simp add: word_unat_eq_iff)
    then have "unat offset \<noteq> 10 * N" using u by simp
    then have "\<not> (unat offset mod 10 = 0 \<and> unat offset div 10 = N)" by auto
    then have "(unat offset mod 10 = 0 \<and> unat offset div 10 < Suc N)
        = (unat offset mod 10 = 0 \<and> unat offset div 10 < N)" by auto
    with False show ?thesis by (simp add: written_def)
  qed
qed

lemma cycle_effect:
  assumes res: "set_extent_resizes lib" and rep: "write_chunk_replaces lib"
      and bS: "10 * Suc N < 18446744073709551616"
      and c: "cycle p lib rt (loop_result p rt N) = Inr st"
  shows "st = loop_result p rt (Suc N)"
proof -
  let ?d = "dset (loop_result p rt N)"
  have b: "10 * N < 18446744073709551616" using bS by simp
  have "unat (logical_length ?d) \<le> unat (new_size (of_nat N))"
    using unat_write_offset[OF b] unat_write_offset[OF bS]
    by (simp add: loop_result_def new_size_write_offset del: of_nat_Suc)
  then have grow: "logical_length ?d \<le> new_size (of_nat N)"
    by (simp add: word_le_nat_alt)
  have n: "n_chunks (loop_result p rt N) = of_nat N"
    by (simp add: loop_result_def)
  from c obtain d1 d2 where
    e: "extend_dataset lib ?d (new_size (of_nat N)) = Inr d1" and
    w: "direct_write p lib rt d1 (write_offset (of_nat N)) = Inr d2" and
    st: "st = \<lparr>n_chunks = of_nat N + 1, dset = d2\<rparr>"
    unfolding cycle_def n by (auto split: sum.splits)
  from e have "H5Dset_extent lib ?d (new_size (of_nat N)) = Inr d1"
    by (simp add: extend_dataset_def split: sum.splits)
  with res grow have d1: "d1 = ?d\<lparr>logical_length := new_size (of_nat N)\<rparr>"
    unfolding set_extent_resizes_def by blast
  from w obtain rq where
    rq: "chunk_request p rt (write_offset (of_nat N)) = Inr rq" and
    h: "H5Dwrite_chunk lib d1 (filters rq) (chunk_offset rq) (data_size rq) (data_buf rq) = Inr d2"
    by (auto simp add: direct_write_def split: sum.splits)
  from h rep have d2: "d2 = d1\<lparr>chunks := (chunks d1)(chunk_offset rq \<mapsto>
        \<lparr>filter_mask = filters rq, encoded_payload = take (unat (data_size rq)) (data_buf rq)\<rparr>)\<rparr>"
    unfolding write_chunk_replaces_def by blast
  have off: "chunk_offset rq = write_offset (of_nat N)"
    using rq by (rule chunk_request_offset)
  have s: "stored p rt (write_offset (of_nat N)) =
      Some \<lparr>filter_mask = filters rq, encoded_payload = take (unat (data_size rq)) (data_buf rq)\<rparr>"
    using rq by (simp add: stored_def)
  have m: "(written p rt N)(write_offset (of_nat N) \<mapsto>
        \<lparr>filter_mask = filters rq, encoded_payload = take (unat (data_size rq)) (data_buf rq)\<rparr>)
      = written p rt (Suc N)"
    using written_Suc[OF b, of p rt] s by simp
  have "d2 = \<lparr>logical_length = write_offset (of_nat (Suc N)), chunk_size = CHUNK_SIZE,
               fill_value = FILL_VALUE, chunks = written p rt (Suc N)\<rparr>"
    unfolding d2 d1 off using m
    by (simp add: loop_result_def new_size_write_offset del: of_nat_Suc)
  then show ?thesis
    unfolding st by (simp add: loop_result_def add.commute)
qed

lemma main_loop_effect:
  assumes res: "set_extent_resizes lib" and rep: "write_chunk_replaces lib"
      and b: "10 * N < 18446744073709551616"
      and m: "main_loop N p lib rt = Inr st"
  shows "st = loop_result p rt N"
  using b m
proof (induction N arbitrary: st)
  case 0
  then show ?case
    by (simp add: main_loop_def loop_result_def setup_dataset_def written_def write_offset_def)
next
  case (Suc N)
  from Suc.prems(2) obtain st' where
    a: "main_loop N p lib rt = Inr st'" and c: "cycle p lib rt st' = Inr st"
    unfolding main_loop_def production_loop_snoc by (auto split: sum.splits)
  have bN: "10 * N < 18446744073709551616" using Suc.prems(1) by simp
  have "st' = loop_result p rt N" using Suc.IH[OF bN a] .
  with c show ?case using cycle_effect[OF res rep Suc.prems(1)] by simp
qed

lemma cycle_mt_fill_spec_store:
  assumes "malloc_ok rt" and "10 * Suc N < 18446744073709551616"
  shows "\<exists>st. cycle MtFill spec_store rt (loop_result MtFill rt N) = Inr st"
proof -
  have u0: "unat (write_offset (of_nat N)) = 10 * N"
    using assms(2) by (intro unat_write_offset) simp
  have u1: "unat (write_offset (of_nat (Suc N))) = 10 * Suc N"
    using assms(2) by (rule unat_write_offset)
  have ext: "extend_dataset spec_store (dset (loop_result MtFill rt N)) (new_size (of_nat N)) =
      Inr \<lparr>logical_length = write_offset (of_nat (Suc N)), chunk_size = CHUNK_SIZE,
               fill_value = FILL_VALUE, chunks = written MtFill rt N\<rparr>"
    using u0 u1
    by (simp add: extend_dataset_def spec_store_def spec_extend_def loop_result_def
        new_size_write_offset word_less_nat_alt del: of_nat_Suc)
  have wr: "\<exists>d2. direct_write MtFill spec_store rt \<lparr>logical_length = write_offset (of_nat (Suc N)),
               chunk_size = CHUNK_SIZE, fill_value = FILL_VALUE, chunks = written MtFill rt N\<rparr>
               (write_offset (of_nat N)) = Inr d2"
    using u0 u1 assms(1)
    by (simp add: direct_write_def chunk_request_def mt_fill_request_ok spec_store_def
        spec_write_chunk_def raw_length_def CHUNK_SIZE_def sizeof_int_def
        del: of_nat_Suc)
  show ?thesis
    using ext wr by (auto simp add: cycle_def loop_result_def simp del: of_nat_Suc)
qed

lemma mt_fill_main_loop:
  assumes "malloc_ok rt" and "10 * N < 18446744073709551616"
  shows "main_loop N MtFill spec_store rt = Inr (loop_result MtFill rt N)"
  using assms(2)
proof (induction N)
  case 0
  show ?case
    by (simp add: main_loop_def loop_result_def setup_dataset_def written_def write_offset_def)
next
  case (Suc N)
  then have a: "main_loop N MtFill spec_store rt = Inr (loop_result MtFill rt N)" by simp
  obtain st where c: "cycle MtFill spec_store rt (loop_result MtFill rt N) = Inr st"
    using cycle_mt_fill_spec_store[OF assms(1) Suc.prems] by blast
  have bN: "10 * N < 18446744073709551616" using Suc.prems by simp
  have "st = loop_result MtFill rt (Suc N)"
    using cycle_effect[OF spec_store_effects(1,2) Suc.prems c] .
  with a c show ?case
    unfolding main_loop_def production_loop_snoc by simp
qed

lemma read_mt_fill_result:
  assumes "malloc_ok rt" and "10 * N < 18446744073709551616" and "k < N"
  shows "read_chunk (dset (loop_result MtFill rt N)) (write_offset (of_nat k)) =
           Some (replicate 10 (chunk_value (write_offset (of_nat k))))"
proof -
  have uk: "unat (write_offset (of_nat k)) = 10 * k"
    using assms by (intro unat_write_offset) simp
  have uN: "unat (write_offset (of_nat N)) = 10 * N"
    using assms by (intro unat_write_offset) simp
  show ?thesis
    using uk uN assms(1,3)
    by (simp add: read_chunk_def loop_result_def lookup_def written_def stored_mt_fill
        CHUNK_SIZE_def bytes_buf_buf_bytes fill_buf_def)
qed

lemma mt_fill_success_allocates:
  assumes "main_loop (Suc N) MtFill lib rt = Inr st"
  shows "malloc_ok rt"
proof -
  from assms obtain st' where "cycle MtFill lib rt st' = Inr st"
    unfolding main_loop_def production_loop_snoc by (auto split: sum.splits)
  then obtain d1 rq where "chunk_request MtFill rt (write_offset (n_chunks st')) = Inr rq"
    by (auto simp add: cycle_def direct_write_def split: sum.splits)
  then show ?thesis
    by (auto simp add: chunk_request_def mt_fill_request_def Let_def split: if_splits)
qed

lemma mt_fill_requests:
  "malloc_ok rt \<Longrightarrow> \<exists>rq. chunk_request MtFill rt offset = Inr rq"
  by (simp add: chunk_request_def mt_fill_request_ok)

lemma cycle_unchecked:
  assumes "chunk_request p rt (write_offset (n_chunks st)) = Inr rq"
  shows "\<exists>d. cycle p unchecked_store rt st = Inr \<lparr>n_chunks = n_chunks st + 1, dset = d\<rparr>"
  using assms
  by (simp add: cycle_def extend_dataset_def unchecked_store_def direct_write_def)

lemma unchecked_loop_runs:
  assumes "\<And>offset. \<exists>rq. chunk_request p rt offset = Inr rq"
  shows "\<exists>d. main_loop N p unchecked_store rt = Inr \<lparr>n_chunks = of_nat N, dset = d\<rparr>"
proof (induction N)
  case 0
  show ?case by (simp add: main_loop_def)
next
  case (Suc N)
  then obtain d where
    m: "main_loop N p unchecked_store rt = Inr \<lparr>n_chunks = of_nat N, dset = d\<rparr>"
    by blast
  obtain rq where "chunk_request p rt (write_offset (of_nat N)) = Inr rq"
    using assms by blast
  then have "\<exists>d'. cycle p unchecked_store rt \<lparr>n_chunks = of_nat N, dset = d\<rparr> =
      Inr \<lparr>n_chunks = of_nat N + 1, dset = d'\<rparr>"
    using cycle_unchecked[of p rt "\<lparr>n_chunks = of_nat N, dset = d\<rparr>" rq] by simp
  with m show ?case
    unfolding main_loop_def production_loop_snoc by (auto simp add: add.commute)
qed

lemma unchecked_main_loop:
  assumes "\<And>offset. \<exists>rq. chunk_request p rt offset = Inr rq"
      and "10 * N < 18446744073709551616"
  shows "main_loop N p unchecked_store rt = Inr (loop_result p rt N)"
proof -
  obtain d where m: "main_loop N p unchecked_store rt = Inr \<lparr>n_chunks = of_nat N, dset = d\<rparr>"
    using unchecked_loop_runs[OF assms(1)] by blast
  then have "\<lparr>n_chunks = of_nat N, dset = d\<rparr> = loop_result p rt N"
    using main_loop_effect[OF unchecked_store_effects assms(2)] by blast
  with m show ?thesis by simp
qed

lemma loop_requests_succeed:
  assumes res: "set_extent_resizes lib" and rep: "write_chunk_replaces lib"
      and b: "10 * N < 18446744073709551616"
      and m: "main_loop N p lib rt = Inr st"
      and k: "k < N"
  shows "\<exists>rq. chunk_request p rt (write_offset (of_nat k)) = Inr rq"
  using b m k
proof (induction N arbitrary: st)
  case 0
  then show ?case by simp
next
  case (Suc N)
  from Suc.prems(2) obtain st0 where
    a: "main_loop N p lib rt = Inr st0" and c: "cycle p lib rt st0 = Inr st"
    unfolding main_loop_def production_loop_snoc by (auto split: sum.splits)
  have bN: "10 * N < 18446744073709551616" using Suc.prems(1) by simp
  show ?case
  proof (cases "k < N")
    case True
    then show ?thesis using Suc.IH[OF bN a] by blast
  next
    case False
    then have kN: "k = N" using Suc.prems(3) by simp
    have "st0 = loop_result p rt N"
      using main_loop_effect[OF res rep bN a] .
    then have "n_chunks st0 = of_nat N" by (simp add: loop_result_def)
    with c obtain rq where "chunk_request p rt (write_offset (of_nat N)) = Inr rq"
      by (auto simp add: cycle_def direct_write_def split: sum.splits)
    then show ?thesis unfolding kN by blast
  qed
qed


subsection \<open>Sequences of extend calls\<close>

lemma after_extend_grows:
  assumes "rejects_shrink lib" and "set_extent_resizes lib"
  shows "logical_length did \<le> logical_length (after_extend lib did sz)"
proof (cases "H5Dset_extent lib did sz")
  case (Inl e)
  then show ?thesis by (simp add: after_extend_def extend_dataset_def)
next
  case (Inr d')
  have n: "\<not> sz < logical_length did"
    using Inr assms(1) unfolding rejects_shrink_def by fastforce
  then have "d' = did\<lparr>logical_length := sz\<rparr>"
    using Inr assms(2) unfolding set_extent_resizes_def by (simp add: not_less)
  then show ?thesis
    using Inr n by (simp add: after_extend_def extend_dataset_def)
qed

lemma extend_all_grows:
  assumes "rejects_shrink lib" and "set_extent_resizes lib"
  shows "logical_length did \<le> logical_length (extend_all lib did szs)"
proof (induction szs arbitrary: did)
  case Nil
  show ?case by (simp add: extend_all_def)
next
  case (Cons sz szs)
  have "logical_length did \<le> logical_length (after_extend lib did sz)"
    using assms by (rule after_extend_grows)
  also have "\<dots> \<le> logical_length (extend_all lib (after_extend lib did sz) szs)"
    by (rule Cons.IH)
  finally show ?case by (simp add: extend_all_def)
qed

text \<open>
  The 64-bit sizes cannot wrap around against a store that refuses smaller sizes: the
  extension whose new size would wrap asks for a size below the current extent and is
  refused, so the loop stops there. Hence every state the loop reaches against such a
  store, and every state it reaches within the first 1844674407370955161 cycles against
  any store, is the state described by \<open>loop_result\<close>, and the extension of the next
  cycle, when it succeeds, only sets the extent to the new size.
\<close>

lemma extend_no_wrap:
  assumes rej: "rejects_shrink lib"
      and b: "10 * N < 18446744073709551616"
      and e: "extend_dataset lib (dset (loop_result p rt N)) (new_size (of_nat N)) = Inr d1"
  shows "10 * Suc N < 18446744073709551616"
proof (rule ccontr)
  assume "\<not> 10 * Suc N < 18446744073709551616"
  then have big: "18446744073709551616 \<le> 10 * N + 10" by simp
  have "new_size (of_nat N) = (of_nat (10 * N + 10) :: 64 word)"
    by (simp add: new_size_def CHUNK_SIZE_def algebra_simps)
  then have "unat (new_size (of_nat N)) = (10 * N + 10) mod 2 ^ 64"
    by (simp only: unat_of_nat) simp
  also have "\<dots> = 10 * N + 10 - 18446744073709551616"
    using big b by (simp add: mod_if)
  also have "\<dots> < 10 * N"
    using big by linarith
  finally have "unat (new_size (of_nat N)) < unat (write_offset (of_nat N))"
    using unat_write_offset[OF b] by simp
  then have "new_size (of_nat N) < logical_length (dset (loop_result p rt N))"
    by (simp add: word_less_nat_alt loop_result_def)
  then have "H5Dset_extent lib (dset (loop_result p rt N)) (new_size (of_nat N))
      = Inl ShrinkNotAllowed"
    using rej unfolding rejects_shrink_def by blast
  then show False using e by (simp add: extend_dataset_def)
qed

lemma reachable_rejects:
  assumes res: "set_extent_resizes lib" and rep: "write_chunk_replaces lib"
      and rej: "rejects_shrink lib"
      and m: "main_loop N p lib rt = Inr st"
  shows "10 * N < 18446744073709551616 \<and> st = loop_result p rt N"
  using m
proof (induction N arbitrary: st)
  case 0
  then show ?case
    by (simp add: main_loop_def loop_result_def setup_dataset_def written_def write_offset_def)
next
  case (Suc N)
  from Suc.prems obtain st0 where
    a: "main_loop N p lib rt = Inr st0" and c: "cycle p lib rt st0 = Inr st"
    unfolding main_loop_def production_loop_snoc by (auto split: sum.splits)
  have b: "10 * N < 18446744073709551616" and s0: "st0 = loop_result p rt N"
    using Suc.IH[OF a] by simp_all
  from c obtain d1 where
    "extend_dataset lib (dset (loop_result p rt N)) (new_size (of_nat N)) = Inr d1"
    unfolding s0 by (auto simp add: cycle_def loop_result_def split: sum.splits)
  then have bS: "10 * Suc N < 18446744073709551616"
    using extend_no_wrap[OF rej b] by blast
  have "st = loop_result p rt (Suc N)"
    using cycle_effect[OF res rep bS] c s0 by simp
  with bS show ?case by simp
qed

lemma reachable_state:
  assumes res: "set_extent_resizes lib" and rep: "write_chunk_replaces lib"
      and lim: "rejects_shrink lib \<or> N < 1844674407370955161"
      and m: "main_loop N p lib rt = Inr st"
  shows "10 * N < 18446744073709551616 \<and> st = loop_result p rt N"
proof (cases "rejects_shrink lib")
  case True
  then show ?thesis using reachable_rejects[OF res rep _ m] by blast
next
  case False
  then have "10 * N < 18446744073709551616" using lim by simp
  then show ?thesis using main_loop_effect[OF res rep _ m] by blast
qed

lemma loop_extend_effect:
  assumes res: "set_extent_resizes lib" and rep: "write_chunk_replaces lib"
      and lim: "rejects_shrink lib \<or> N < 1844674407370955161"
      and m: "main_loop N p lib rt = Inr st"
      and ext: "extend_dataset lib (dset st) (new_size (n_chunks st)) = Inr d1"
  shows "st = loop_result p rt N \<and> 10 * Suc N < 18446744073709551616
       \<and> d1 = (dset st)\<lparr>logical_length := new_size (of_nat N)\<rparr>"
proof -
  have b: "10 * N < 18446744073709551616" and st: "st = loop_result p rt N"
    using reachable_state[OF res rep lim m] by simp_all
  have ext': "extend_dataset lib (dset (loop_result p rt N)) (new_size (of_nat N)) = Inr d1"
    using ext unfolding st by (simp add: loop_result_def)
  have bS: "10 * Suc N < 18446744073709551616"
  proof (cases "rejects_shrink lib")
    case True
    then show ?thesis using extend_no_wrap[OF _ b ext'] by blast
  next
    case False
    then show ?thesis using lim by simp
  qed
  have wo: "unat (write_offset (of_nat N)) = 10 * N"
    using b by (rule unat_write_offset)
  have ns: "unat (new_size (of_nat N)) = 10 * Suc N"
    using unat_write_offset[OF bS] by (simp add: new_size_write_offset del: of_nat_Suc)
  have "logical_length (dset (loop_result p rt N)) \<le> new_size (of_nat N)"
    using wo ns by (simp add: word_le_nat_alt loop_result_def)
  moreover have "H5Dset_extent lib (dset (loop_result p rt N)) (new_size (of_nat N)) = Inr d1"
    using ext' by (simp add: extend_dataset_def split: sum.splits)
  ultimately have "d1 = (dset (loop_result p rt N))\<lparr>logical_length := new_size (of_nat N)\<rparr>"
    using res unfolding set_extent_resizes_def by blast
  then show ?thesis using st bS by blast
qed

text \<open>
  The deflate program reports an overflow exactly when both allocations succeed and
  \<^verbatim>\<open>compress2\<close> answers \<^verbatim>\<open>Z_BUF_ERROR\<close> for a destination of 53 bytes. The codec of
  \<open>toy_runtime\<close> keeps within the worst-case bound of deflate.
\<close>

lemma deflate_bound_raw: "deflate_bound (unat CHUNK_SIZE * unat sizeof_int) = 53"
  by (simp add: deflate_bound_def CHUNK_SIZE_def sizeof_int_def)

lemma writer_request_overflow:
  "(writer_request rt offset = Inl Overflow) =
     (malloc_ok rt \<and> calloc_ok rt \<and>
      fst (compress2 rt 53 (buf_bytes (fill_buf (chunk_value offset))) COMPRESSION_LEVEL)
        = Z_BUF_ERROR)"
  using guard_dead[of "chunk_value offset"]
  by (auto simp add: writer_request_def Let_def buf_out_size_value split: prod.splits)

lemma toy_runtime_within_bound:
  "\<forall>cap src lvl. deflate_bound (length src) \<le> cap \<longrightarrow>
     fst (compress2 toy_runtime cap src lvl) \<noteq> Z_BUF_ERROR"
proof (intro allI impI)
  fix cap :: nat and src :: "byte list" and lvl :: nat
  assume c: "deflate_bound (length src) \<le> cap"
  have "real (length src) \<le> real (length src) * 1.001" by simp
  then have "length src \<le> nat \<lceil>real (length src) * 1.001\<rceil>" by linarith
  then have "length src + 12 \<le> deflate_bound (length src)"
    by (simp add: deflate_bound_def)
  moreover have "length (toy_deflate src) \<le> length src + 1"
    by (simp add: toy_deflate_def)
  ultimately have "length (toy_deflate src) \<le> cap" using c by linarith
  then show "fst (compress2 toy_runtime cap src lvl) \<noteq> Z_BUF_ERROR"
    by (simp add: toy_runtime_def)
qed

section \<open>Claim C1: the byte count handed to the store\<close>

text \<open>
  The check \<^verbatim>\<open>z_destLen > buf_size\<close> does what it says: a compressed stream longer
  than the raw chunk is rejected before \<^verbatim>\<open>H5Dwrite_chunk\<close> is called
  (\<open>writer_rejects_larger\<close>). But the call that follows passes \<^verbatim>\<open>buf_out_size\<close>, the
  capacity of the output buffer, where the length of the compressed stream is meant:
  every request of the deflate program declares 53 bytes (\<open>writer_request_size\<close>),
  more than the 40 bytes of a raw chunk.
\<close>

text \<open>
  Claim C1, evaluated at offset 0 with a \<^verbatim>\<open>compress2\<close> that returns the 12-byte stream
  of forty zero bytes. The claim says that \<^verbatim>\<open>direct_write\<close> never hands the store a
  payload whose declared byte count exceeds \<^verbatim>\<open>CHUNK_SIZE * sizeof(int)\<close> = 40. The
  program declares 53 bytes, and the store of the specification answers
  \<open>PayloadTooLarge\<close>.
\<close>

theorem writer_declares_buffer_capacity:
  "writer_request (fixed_stream_runtime zeros_deflated) 0 =
     Inr \<lparr>filters = 0, chunk_offset = 0, data_size = 53,
          data_buf = zeros_deflated @ replicate 41 0\<rparr>
   \<and> length zeros_deflated = 12
   \<and> unat CHUNK_SIZE * unat sizeof_int = 40
   \<and> direct_write Writer spec_store (fixed_stream_runtime zeros_deflated)
        (setup_dataset\<lparr>logical_length := 10\<rparr>) 0 = Inl (WriteChunkFailed PayloadTooLarge)"
proof -
  have a: "direct_write Writer spec_store (fixed_stream_runtime zeros_deflated)
        (setup_dataset\<lparr>logical_length := 10\<rparr>) 0 = Inl (WriteChunkFailed PayloadTooLarge)"
    by (simp add: direct_write_def chunk_request_def writer_request_zeros spec_store_def
        spec_write_chunk_def setup_dataset_def raw_length_def CHUNK_SIZE_def sizeof_int_def)
  have b: "length zeros_deflated = 12"
    by (simp add: zeros_deflated_def)
  have c: "unat CHUNK_SIZE * unat sizeof_int = 40"
    by (simp add: CHUNK_SIZE_def sizeof_int_def)
  show ?thesis
    using a b c writer_request_zeros by simp
qed

section \<open>Claim C2: what is stored for a chunk\<close>

text \<open>
  The raw program stores exactly the 40 raw bytes of the chunk with filter mask 0, in
  every store whose chunk write replaces the index entry. In such a store the deflate
  program leaves the compressed stream followed by zero bytes up to a length of 53:
  at least 13 bytes that \<^verbatim>\<open>compress2\<close> never produced.
\<close>

lemma mt_fill_round_trip:
  assumes "write_chunk_replaces lib"
      and "direct_write MtFill lib rt did offset = Inr did'"
  shows "lookup did' offset =
           Some \<lparr>filter_mask = 0, encoded_payload = buf_bytes (fill_buf (chunk_value offset))\<rparr>
       \<and> length (buf_bytes (fill_buf (chunk_value offset))) = unat CHUNK_SIZE * unat sizeof_int"
proof -
  from assms(2) obtain rq where
    rq: "chunk_request MtFill rt offset = Inr rq" and
    h: "H5Dwrite_chunk lib did (filters rq) (chunk_offset rq) (data_size rq) (data_buf rq) = Inr did'"
    by (auto simp add: direct_write_def split: sum.splits)
  from rq have r: "rq = \<lparr>filters = 0, chunk_offset = offset, data_size = 40,
          data_buf = buf_bytes (fill_buf (chunk_value offset))\<rparr>"
    by (auto simp add: chunk_request_def mt_fill_request_def Let_def buf_size_value
        split: if_splits)
  from h assms(1) have "did' = did\<lparr>chunks := (chunks did)(chunk_offset rq \<mapsto>
        \<lparr>filter_mask = filters rq, encoded_payload = take (unat (data_size rq)) (data_buf rq)\<rparr>)\<rparr>"
    unfolding write_chunk_replaces_def by blast
  then show ?thesis
    unfolding r by (simp add: lookup_def length_raw_payload CHUNK_SIZE_def sizeof_int_def)
qed

lemma writer_stores_padding:
  assumes "write_chunk_replaces lib"
      and "direct_write Writer lib rt did offset = Inr did'"
  shows "\<exists>out. compress2 rt 53 (buf_bytes (fill_buf (chunk_value offset))) COMPRESSION_LEVEL
                 = (Z_OK, out)
             \<and> length out \<le> 40
             \<and> lookup did' offset =
                 Some \<lparr>filter_mask = 0, encoded_payload = out @ replicate (53 - length out) 0\<rparr>"
proof -
  from assms(2) obtain rq where
    rq: "writer_request rt offset = Inr rq" and
    h: "H5Dwrite_chunk lib did (filters rq) (chunk_offset rq) (data_size rq) (data_buf rq) = Inr did'"
    by (auto simp add: direct_write_def chunk_request_def split: sum.splits)
  from h assms(1) have d: "did' = did\<lparr>chunks := (chunks did)(chunk_offset rq \<mapsto>
        \<lparr>filter_mask = filters rq, encoded_payload = take (unat (data_size rq)) (data_buf rq)\<rparr>)\<rparr>"
    unfolding write_chunk_replaces_def by blast
  have o: "chunk_offset rq = offset" and f: "filters rq = 0"
    using rq
    by (auto simp add: writer_request_def Let_def split: if_splits prod.splits)
  from writer_request_padding[OF rq] obtain out where
    c: "compress2 rt 53 (buf_bytes (fill_buf (chunk_value offset))) COMPRESSION_LEVEL = (Z_OK, out)"
    and l: "length out \<le> 40" and b: "data_buf rq = out @ replicate (53 - length out) 0"
    by blast
  have "take (unat (data_size rq)) (data_buf rq) = out @ replicate (53 - length out) 0"
    using writer_request_size[OF rq] b by simp
  then show ?thesis
    using c l unfolding d o f by (simp add: lookup_def)
qed

lemma spec_store_round_trip:
  assumes "H5Dwrite_chunk spec_store d m offset sz buf = Inr d'"
  shows "lookup d' offset = Some \<lparr>filter_mask = m, encoded_payload = take (unat sz) buf\<rparr>"
  using assms
  by (auto simp add: spec_store_def spec_write_chunk_def lookup_def split: if_splits)

text \<open>
  Claim C2, evaluated at offset 0 of a dataset of extent 10 with the same runtime. The
  claim says that the stored payload of the deflate program is exactly the
  \<^verbatim>\<open>z_destLen\<close> bytes \<^verbatim>\<open>compress2\<close> produced, with no trailing bytes. The encoder
  produced 12 bytes; what a lookup returns after the write has 53 bytes, the stream
  and 41 zero bytes.
\<close>

theorem writer_stores_padded_stream:
  "compress2 (fixed_stream_runtime zeros_deflated) (unat buf_out_size)
      (buf_bytes (fill_buf (chunk_value 0))) COMPRESSION_LEVEL = (Z_OK, zeros_deflated)
   \<and> length zeros_deflated = 12
   \<and> direct_write Writer unchecked_store (fixed_stream_runtime zeros_deflated)
        (setup_dataset\<lparr>logical_length := 10\<rparr>) 0 =
       Inr (setup_dataset\<lparr>logical_length := 10, chunks := [0 \<mapsto>
         \<lparr>filter_mask = 0, encoded_payload = zeros_deflated @ replicate 41 0\<rparr>]\<rparr>)
   \<and> lookup (setup_dataset\<lparr>logical_length := 10, chunks := [0 \<mapsto>
         \<lparr>filter_mask = 0, encoded_payload = zeros_deflated @ replicate 41 0\<rparr>]\<rparr>) 0 =
       Some \<lparr>filter_mask = 0, encoded_payload = zeros_deflated @ replicate 41 0\<rparr>
   \<and> length (zeros_deflated @ replicate 41 (0 :: byte)) = 53"
proof -
  have b: "length zeros_deflated = 12"
    by (simp add: zeros_deflated_def)
  have a: "direct_write Writer unchecked_store (fixed_stream_runtime zeros_deflated)
              (setup_dataset\<lparr>logical_length := 10\<rparr>) 0 =
      Inr (setup_dataset\<lparr>logical_length := 10, chunks := [0 \<mapsto>
         \<lparr>filter_mask = 0, encoded_payload = zeros_deflated @ replicate 41 0\<rparr>]\<rparr>)"
    using b
    by (simp add: direct_write_def chunk_request_def writer_request_zeros unchecked_store_def
        setup_dataset_def)
  have c: "compress2 (fixed_stream_runtime zeros_deflated) (unat buf_out_size)
      (buf_bytes (fill_buf (chunk_value 0))) COMPRESSION_LEVEL = (Z_OK, zeros_deflated)"
    using b by (simp add: fixed_stream_runtime_def buf_out_size_value)
  show ?thesis
    using a b c by (simp add: lookup_def)
qed

section \<open>Claim C3: the dataset after N cycles\<close>

text \<open>
  As long as the sizes fit 64 bits, the dataset after \<open>N\<close> successful cycles has the
  logical length \<open>N * CHUNK_SIZE\<close>, and in the raw program every chunk whose number is
  at most \<^verbatim>\<open>INT_MAX\<close> reads back as \<open>CHUNK_SIZE\<close> ints equal to its number.
\<close>

lemma production_loop_result:
  assumes res: "set_extent_resizes lib" and rep: "write_chunk_replaces lib"
      and b: "10 * N < 18446744073709551616"
      and m: "main_loop N p lib rt = Inr st"
  shows "unat (logical_length (dset st)) = N * unat CHUNK_SIZE
       \<and> n_chunks st = of_nat N
       \<and> (\<forall>k. k < N \<longrightarrow> k < 2147483648 \<longrightarrow> p = MtFill \<longrightarrow>
            map_option (map sint) (read_chunk (dset st) (write_offset (of_nat k))) =
              Some (replicate (unat CHUNK_SIZE) (int k)))"
proof -
  have st: "st = loop_result p rt N"
    using main_loop_effect[OF res rep b m] .
  have len: "unat (logical_length (dset st)) = N * unat CHUNK_SIZE"
    unfolding st using unat_write_offset[OF b] by (simp add: loop_result_def CHUNK_SIZE_def)
  have cnt: "n_chunks st = of_nat N"
    unfolding st by (simp add: loop_result_def)
  have rd: "map_option (map sint) (read_chunk (dset st) (write_offset (of_nat k))) =
              Some (replicate (unat CHUNK_SIZE) (int k))"
    if k: "k < N" and n: "k < 2147483648" and p: "p = MtFill" for k
  proof -
    obtain N' where "N = Suc N'" using k by (cases N) auto
    then have a: "malloc_ok rt"
      using m p mt_fill_success_allocates by blast
    show ?thesis
      unfolding st p using n read_mt_fill_result[OF a b k]
      by (simp add: chunk_value_small CHUNK_SIZE_def)
  qed
  show ?thesis using len cnt rd by blast
qed

text \<open>
  Claim C3 says that after \<open>N\<close> iterations of the production loop the logical length
  is \<open>N * CHUNK_SIZE\<close> and every chunk \<open>k < N\<close> decodes to \<open>CHUNK_SIZE\<close> elements all
  equal to \<open>k\<close>. The code departs from it at chunk number 2147483648. \<^verbatim>\<open>direct_write\<close>
  means to fill the chunk with the chunk number and to refuse more than \<^verbatim>\<open>INT_MAX\<close>
  chunks, but the number has been converted to \<^verbatim>\<open>int\<close> before the comparison, so the
  guard never fires (claim C10): after 2147483649 cycles of the raw program, all of
  which succeed against the store of the specification, chunk number 2147483648 reads
  back as ten ints equal to \<open>-2147483648\<close>, not to its number.
\<close>

theorem chunk_beyond_int_max:
  "main_loop 2147483649 MtFill spec_store (fixed_stream_runtime zeros_deflated) =
     Inr (loop_result MtFill (fixed_stream_runtime zeros_deflated) 2147483649)
   \<and> map_option (map sint)
        (read_chunk (dset (loop_result MtFill (fixed_stream_runtime zeros_deflated) 2147483649))
           (write_offset 2147483648)) = Some (replicate 10 (- 2147483648))
   \<and> replicate 10 (- 2147483648) \<noteq> replicate 10 (2147483648 :: int)"
proof -
  have m: "main_loop 2147483649 MtFill spec_store (fixed_stream_runtime zeros_deflated) =
      Inr (loop_result MtFill (fixed_stream_runtime zeros_deflated) 2147483649)"
    by (rule mt_fill_main_loop) (simp_all add: runtime_allocates)
  have "read_chunk (dset (loop_result MtFill (fixed_stream_runtime zeros_deflated) 2147483649))
          (write_offset (of_nat 2147483648)) =
           Some (replicate 10 (chunk_value (write_offset (of_nat 2147483648))))"
    by (rule read_mt_fill_result) (simp_all add: runtime_allocates)
  then have r: "map_option (map sint)
        (read_chunk (dset (loop_result MtFill (fixed_stream_runtime zeros_deflated) 2147483649))
           (write_offset 2147483648)) = Some (replicate 10 (- 2147483648))"
    by (simp add: chunk_value_def write_offset_def CHUNK_SIZE_def)
  show ?thesis
    using m r by simp
qed

section \<open>Claim C4: the preconditions of the writes the loop issues\<close>

text \<open>
  Claim C4. Every chunk write the production loop issues meets the preconditions of a
  direct write. Let \<open>N\<close> cycles have succeeded, so that the loop is in its iteration
  \<open>n = N\<close>, and let the extension of this iteration succeed. Then the counter is \<open>N\<close>;
  the write offset is exactly \<open>N * CHUNK_SIZE\<close>, a multiple of the chunk size; the cycle
  issues the write at that offset on the dataset the extension returned, whose logical
  length is \<open>(N + 1) * CHUNK_SIZE\<close>, so that \<open>offset + CHUNK_SIZE \<le> logical_length\<close>;
  and a successful write leaves the logical length as the extension set it (nothing is
  extended by the write), puts at the offset exactly the filter mask and the bytes the
  program handed over (the chunk is replaced whole, not merged) and leaves every other
  chunk as it was. The library is any store whose successful extending
  \<^verbatim>\<open>H5Dset_extent\<close> changes only the extent and whose successful \<^verbatim>\<open>H5Dwrite_chunk\<close>
  only replaces the index entry at the offset, as sections 4.1 and 4.2 of the
  specification describe them. Against a store that refuses smaller sizes, as the
  store of the specification does, this holds for every iteration the loop reaches.
  Against any other such store it holds for the first 1844674407370955161 iterations,
  that is as long as \<open>(n + 1) * CHUNK_SIZE\<close> fits \<^verbatim>\<open>hsize_t\<close>.
\<close>

theorem production_loop_write_preconditions:
  assumes res: "set_extent_resizes lib" and rep: "write_chunk_replaces lib"
      and lim: "rejects_shrink lib \<or> N < 1844674407370955161"
      and reach: "main_loop N p lib rt = Inr st"
      and ext: "extend_dataset lib (dset st) (new_size (n_chunks st)) = Inr d1"
  shows "n_chunks st = of_nat N
       \<and> unat (write_offset (n_chunks st)) = N * unat CHUNK_SIZE
       \<and> unat (write_offset (n_chunks st)) mod unat CHUNK_SIZE = 0
       \<and> unat (logical_length d1) = (N + 1) * unat CHUNK_SIZE
       \<and> unat (write_offset (n_chunks st)) + unat CHUNK_SIZE \<le> unat (logical_length d1)
       \<and> cycle p lib rt st =
           (case direct_write p lib rt d1 (write_offset (n_chunks st)) of
              Inl e \<Rightarrow> Inl e
            | Inr d2 \<Rightarrow> Inr \<lparr>n_chunks = n_chunks st + 1, dset = d2\<rparr>)
       \<and> (\<forall>rq. chunk_request p rt (write_offset (n_chunks st)) = Inr rq \<longrightarrow>
             chunk_offset rq = write_offset (n_chunks st))
       \<and> (\<forall>d2. direct_write p lib rt d1 (write_offset (n_chunks st)) = Inr d2 \<longrightarrow>
             logical_length d2 = logical_length d1
             \<and> lookup d2 (write_offset (n_chunks st)) = stored p rt (write_offset (n_chunks st))
             \<and> (\<forall>other. other \<noteq> write_offset (n_chunks st) \<longrightarrow>
                   lookup d2 other = lookup d1 other))"
proof -
  have st: "st = loop_result p rt N" and bS: "10 * Suc N < 18446744073709551616"
    and d1: "d1 = (dset st)\<lparr>logical_length := new_size (of_nat N)\<rparr>"
    using loop_extend_effect[OF res rep lim reach ext] by simp_all
  have b: "10 * N < 18446744073709551616" using bS by simp
  have n: "n_chunks st = of_nat N" unfolding st by (simp add: loop_result_def)
  have wo: "unat (write_offset (of_nat N)) = 10 * N"
    using b by (rule unat_write_offset)
  have ns: "unat (new_size (of_nat N)) = 10 * Suc N"
    using unat_write_offset[OF bS] by (simp add: new_size_write_offset del: of_nat_Suc)
  have c1: "unat (write_offset (n_chunks st)) = N * unat CHUNK_SIZE"
    unfolding n using wo by (simp add: CHUNK_SIZE_def)
  have c2: "unat (write_offset (n_chunks st)) mod unat CHUNK_SIZE = 0"
    unfolding c1 by simp
  have c3: "unat (logical_length d1) = (N + 1) * unat CHUNK_SIZE"
    unfolding d1 using ns by (simp add: CHUNK_SIZE_def)
  have c4: "unat (write_offset (n_chunks st)) + unat CHUNK_SIZE \<le> unat (logical_length d1)"
    unfolding c1 c3 by simp
  have c5: "cycle p lib rt st =
           (case direct_write p lib rt d1 (write_offset (n_chunks st)) of
              Inl e \<Rightarrow> Inl e
            | Inr d2 \<Rightarrow> Inr \<lparr>n_chunks = n_chunks st + 1, dset = d2\<rparr>)"
    using ext by (simp add: cycle_def)
  have c6: "\<forall>rq. chunk_request p rt (write_offset (n_chunks st)) = Inr rq \<longrightarrow>
             chunk_offset rq = write_offset (n_chunks st)"
    using chunk_request_offset by blast
  have c7: "\<forall>d2. direct_write p lib rt d1 (write_offset (n_chunks st)) = Inr d2 \<longrightarrow>
             logical_length d2 = logical_length d1
             \<and> lookup d2 (write_offset (n_chunks st)) = stored p rt (write_offset (n_chunks st))
             \<and> (\<forall>other. other \<noteq> write_offset (n_chunks st) \<longrightarrow>
                   lookup d2 other = lookup d1 other)"
  proof (intro allI impI)
    fix d2
    assume w: "direct_write p lib rt d1 (write_offset (n_chunks st)) = Inr d2"
    then obtain rq where
      rq: "chunk_request p rt (write_offset (n_chunks st)) = Inr rq" and
      h: "H5Dwrite_chunk lib d1 (filters rq) (chunk_offset rq) (data_size rq) (data_buf rq) = Inr d2"
      by (auto simp add: direct_write_def split: sum.splits)
    from h rep have d2: "d2 = d1\<lparr>chunks := (chunks d1)(chunk_offset rq \<mapsto>
        \<lparr>filter_mask = filters rq, encoded_payload = take (unat (data_size rq)) (data_buf rq)\<rparr>)\<rparr>"
      unfolding write_chunk_replaces_def by blast
    have o: "chunk_offset rq = write_offset (n_chunks st)"
      using rq by (rule chunk_request_offset)
    show "logical_length d2 = logical_length d1
             \<and> lookup d2 (write_offset (n_chunks st)) = stored p rt (write_offset (n_chunks st))
             \<and> (\<forall>other. other \<noteq> write_offset (n_chunks st) \<longrightarrow>
                   lookup d2 other = lookup d1 other)"
      unfolding d2 o using rq by (simp add: lookup_def stored_def)
  qed
  show ?thesis
    using n c1 c2 c3 c4 c5 c6 c7 by blast
qed

theorem production_loop_write_preconditions_witness:
  "main_loop 3 MtFill spec_store (fixed_stream_runtime zeros_deflated) =
     Inr (loop_result MtFill (fixed_stream_runtime zeros_deflated) 3)
   \<and> extend_dataset spec_store (dset (loop_result MtFill (fixed_stream_runtime zeros_deflated) 3))
        (new_size 3) =
       Inr ((dset (loop_result MtFill (fixed_stream_runtime zeros_deflated) 3))
              \<lparr>logical_length := 40\<rparr>)
   \<and> unat (write_offset 3) = 3 * unat CHUNK_SIZE
   \<and> unat (write_offset 3) mod unat CHUNK_SIZE = 0
   \<and> unat (write_offset 3) + unat CHUNK_SIZE \<le> 40"
proof -
  let ?rt = "fixed_stream_runtime zeros_deflated"
  let ?st = "loop_result MtFill ?rt 3"
  let ?d1 = "(dset ?st)\<lparr>logical_length := 40\<rparr>"
  have m: "main_loop 3 MtFill spec_store ?rt = Inr ?st"
    by (rule mt_fill_main_loop) (simp_all add: runtime_allocates)
  have n: "n_chunks ?st = 3" by (simp add: loop_result_def)
  have e: "extend_dataset spec_store (dset ?st) (new_size 3) = Inr ?d1"
    by (simp add: extend_dataset_def spec_store_def spec_extend_def loop_result_def
        new_size_def write_offset_def CHUNK_SIZE_def)
  have e': "extend_dataset spec_store (dset ?st) (new_size (n_chunks ?st)) = Inr ?d1"
    unfolding n by (rule e)
  have l: "rejects_shrink spec_store \<or> (3 :: nat) < 1844674407370955161"
    by simp
  have t: "unat (write_offset (n_chunks ?st)) = 3 * unat CHUNK_SIZE
      \<and> unat (write_offset (n_chunks ?st)) mod unat CHUNK_SIZE = 0
      \<and> unat (write_offset (n_chunks ?st)) + unat CHUNK_SIZE \<le> unat (logical_length ?d1)"
    using production_loop_write_preconditions [OF spec_store_effects(1,2) l m e'] by blast
  have "unat (write_offset 3) = 3 * unat CHUNK_SIZE
      \<and> unat (write_offset 3) mod unat CHUNK_SIZE = 0
      \<and> unat (write_offset 3) + unat CHUNK_SIZE \<le> 40"
    using t unfolding n by simp
  then show ?thesis using m e by blast
qed

section \<open>Claim C5: extending to a smaller length\<close>

text \<open>
  Counterexample to claim C5 as stated: \<^verbatim>\<open>extend_dataset\<close> compares nothing. Given a
  library whose \<^verbatim>\<open>H5Dset_extent\<close> accepts a smaller size, as the HDF5 function is
  documented to, it succeeds and the dataset shrinks from 10 to 5.
\<close>

theorem extend_dataset_accepts_smaller_size:
  "(5 :: hsize_t) < logical_length (setup_dataset\<lparr>logical_length := 10\<rparr>)
   \<and> extend_dataset unchecked_store (setup_dataset\<lparr>logical_length := 10\<rparr>) 5 =
       Inr (setup_dataset\<lparr>logical_length := 5\<rparr>)"
  by (simp add: extend_dataset_def unchecked_store_def)

text \<open>
  Claim C5, amended. \<^verbatim>\<open>extend_dataset\<close> compares nothing itself: it succeeds exactly
  when \<^verbatim>\<open>H5Dset_extent\<close> succeeds, with the dataset the library returns, and fails
  exactly when \<^verbatim>\<open>H5Dset_extent\<close> fails, with the library's error; in particular a call
  fails with \<open>ShrinkNotAllowed\<close> exactly when the library answers \<open>ShrinkNotAllowed\<close>.
  The logical length never decreases over any sequence of \<^verbatim>\<open>extend_dataset\<close> calls
  against a library that refuses every size below the current length and whose
  successful extending calls only resize. Against any library whose successful calls
  only resize and replace, refusing or not, every successful extension the production
  loop issues grows the dataset by exactly one chunk: after \<open>N\<close> successful cycles
  (every \<open>N\<close> when the library refuses smaller sizes, \<open>N < 1844674407370955161\<close>
  otherwise) the size requested next is above the current length.
\<close>

theorem extend_dataset_forwards_set_extent:
  "(extend_dataset lib did sz = Inr d') = (H5Dset_extent lib did sz = Inr d')
   \<and> (extend_dataset lib did sz = Inl f) =
       (\<exists>e. f = SetExtentFailed e \<and> H5Dset_extent lib did sz = Inl e)
   \<and> (extend_dataset lib did sz = Inl (SetExtentFailed ShrinkNotAllowed)) =
       (H5Dset_extent lib did sz = Inl ShrinkNotAllowed)
   \<and> (rejects_shrink lib \<and> set_extent_resizes lib \<longrightarrow>
         logical_length did \<le> logical_length (extend_all lib did szs))
   \<and> (set_extent_resizes lib \<and> write_chunk_replaces lib
        \<and> (rejects_shrink lib \<or> N < 1844674407370955161)
        \<and> main_loop N p lib rt = Inr st
        \<and> extend_dataset lib (dset st) (new_size (n_chunks st)) = Inr d1 \<longrightarrow>
         logical_length (dset st) < logical_length d1
         \<and> unat (logical_length d1) = unat (logical_length (dset st)) + unat CHUNK_SIZE)"
proof -
  have c1: "(extend_dataset lib did sz = Inr d') = (H5Dset_extent lib did sz = Inr d')"
    by (cases "H5Dset_extent lib did sz") (simp_all add: extend_dataset_def)
  have c2: "(extend_dataset lib did sz = Inl f) =
       (\<exists>e. f = SetExtentFailed e \<and> H5Dset_extent lib did sz = Inl e)"
    by (cases "H5Dset_extent lib did sz") (auto simp add: extend_dataset_def)
  have c3: "(extend_dataset lib did sz = Inl (SetExtentFailed ShrinkNotAllowed)) =
       (H5Dset_extent lib did sz = Inl ShrinkNotAllowed)"
    by (cases "H5Dset_extent lib did sz") (simp_all add: extend_dataset_def)
  have c4: "logical_length did \<le> logical_length (extend_all lib did szs)"
    if "rejects_shrink lib \<and> set_extent_resizes lib"
    using that extend_all_grows by blast
  have c5: "logical_length (dset st) < logical_length d1
         \<and> unat (logical_length d1) = unat (logical_length (dset st)) + unat CHUNK_SIZE"
    if h: "set_extent_resizes lib \<and> write_chunk_replaces lib
        \<and> (rejects_shrink lib \<or> N < 1844674407370955161)
        \<and> main_loop N p lib rt = Inr st
        \<and> extend_dataset lib (dset st) (new_size (n_chunks st)) = Inr d1"
  proof -
    have st: "st = loop_result p rt N" and bS: "10 * Suc N < 18446744073709551616"
      and d1: "d1 = (dset st)\<lparr>logical_length := new_size (of_nat N)\<rparr>"
      using loop_extend_effect[of lib N p rt st d1] h by simp_all
    have b: "10 * N < 18446744073709551616" using bS by simp
    have wo: "unat (logical_length (dset st)) = 10 * N"
      unfolding st using unat_write_offset[OF b] by (simp add: loop_result_def)
    have ns: "unat (logical_length d1) = 10 * Suc N"
      unfolding d1 using unat_write_offset[OF bS]
      by (simp add: new_size_write_offset del: of_nat_Suc)
    show ?thesis
      using wo ns by (simp add: word_less_nat_alt CHUNK_SIZE_def)
  qed
  show ?thesis using c1 c2 c3 c4 c5 by blast
qed

theorem extend_dataset_forwards_set_extent_witness:
  "main_loop 2 MtFill unchecked_store toy_runtime = Inr (loop_result MtFill toy_runtime 2)
   \<and> extend_dataset unchecked_store (dset (loop_result MtFill toy_runtime 2)) (new_size 2) =
       Inr ((dset (loop_result MtFill toy_runtime 2))\<lparr>logical_length := 30\<rparr>)
   \<and> logical_length (dset (loop_result MtFill toy_runtime 2)) < 30
   \<and> H5Dset_extent spec_store (setup_dataset\<lparr>logical_length := 10\<rparr>) 5 = Inl ShrinkNotAllowed
   \<and> extend_dataset spec_store (setup_dataset\<lparr>logical_length := 10\<rparr>) 5 =
       Inl (SetExtentFailed ShrinkNotAllowed)
   \<and> logical_length (setup_dataset\<lparr>logical_length := 10\<rparr>)
       \<le> logical_length (extend_all spec_store (setup_dataset\<lparr>logical_length := 10\<rparr>) [5, 20, 10])"
proof -
  let ?st = "loop_result MtFill toy_runtime 2"
  let ?d1 = "(dset ?st)\<lparr>logical_length := 30\<rparr>"
  let ?d = "setup_dataset\<lparr>logical_length := 10\<rparr>"
  have m: "main_loop 2 MtFill unchecked_store toy_runtime = Inr ?st"
    by (rule unchecked_main_loop) (simp_all add: toy_requests)
  have n: "n_chunks ?st = 2" by (simp add: loop_result_def)
  have e: "extend_dataset unchecked_store (dset ?st) (new_size 2) = Inr ?d1"
    by (simp add: extend_dataset_def unchecked_store_def new_size_def CHUNK_SIZE_def)
  have e': "extend_dataset unchecked_store (dset ?st) (new_size (n_chunks ?st)) = Inr ?d1"
    unfolding n by (rule e)
  have l: "rejects_shrink unchecked_store \<or> (2 :: nat) < 1844674407370955161"
    by simp
  have g: "logical_length (dset ?st) < logical_length ?d1"
    using extend_dataset_forwards_set_extent
      [of unchecked_store "dset ?st" "new_size 2" ?d1 "SetExtentFailed ShrinkNotAllowed" Nil 2 MtFill toy_runtime ?st ?d1]
      unchecked_store_effects l m e'
    by blast
  have s: "H5Dset_extent spec_store ?d 5 = Inl ShrinkNotAllowed"
    by (simp add: spec_store_def spec_extend_def)
  have f: "extend_dataset spec_store ?d 5 = Inl (SetExtentFailed ShrinkNotAllowed)"
    using extend_dataset_forwards_set_extent
      [of spec_store ?d 5 ?d "SetExtentFailed ShrinkNotAllowed" Nil 0 MtFill toy_runtime ?st ?d] s
    by blast
  have a: "logical_length ?d \<le> logical_length (extend_all spec_store ?d [5, 20, 10])"
    using extend_dataset_forwards_set_extent
      [of spec_store ?d 5 ?d "SetExtentFailed ShrinkNotAllowed" "[5, 20, 10]" 0 MtFill toy_runtime ?st ?d]
      spec_store_effects(1,3)
    by blast
  have "logical_length (dset ?st) < 30" using g by simp
  then show ?thesis using m e s f a by blast
qed

section \<open>Claim C6: extending twice\<close>

text \<open>
  Claim C6. Extending is idempotent: against a store whose successful
  \<^verbatim>\<open>H5Dset_extent\<close> to a size not below the current extent changes the extent and
  nothing else, a call of \<^verbatim>\<open>extend_dataset\<close> with the current logical length leaves
  the dataset as it is, and calling it twice yields the same dataset, the same result,
  the same logical length and the same view of every chunk as calling it once. Calling
  it twice with any length not below the current one is the same as calling it once.
\<close>

theorem extend_dataset_idempotent:
  assumes "set_extent_resizes lib"
  shows "after_extend lib did (logical_length did) = did
       \<and> after_extend lib (after_extend lib did (logical_length did)) (logical_length did)
           = after_extend lib did (logical_length did)
       \<and> extend_dataset lib (after_extend lib did (logical_length did)) (logical_length did)
           = extend_dataset lib did (logical_length did)
       \<and> logical_length (after_extend lib (after_extend lib did (logical_length did))
             (logical_length did))
           = logical_length (after_extend lib did (logical_length did))
       \<and> read_chunk (after_extend lib (after_extend lib did (logical_length did))
             (logical_length did)) offset
           = read_chunk (after_extend lib did (logical_length did)) offset
       \<and> (logical_length did \<le> sz \<longrightarrow>
            after_extend lib (after_extend lib did sz) sz = after_extend lib did sz)"
proof -
  have r: "d' = d\<lparr>logical_length := sz\<rparr>"
    if "H5Dset_extent lib d sz = Inr d'" and "logical_length d \<le> sz" for d sz d'
    using that assms unfolding set_extent_resizes_def by blast
  have same: "after_extend lib did (logical_length did) = did"
  proof (cases "H5Dset_extent lib did (logical_length did)")
    case (Inl e)
    then show ?thesis by (simp add: after_extend_def extend_dataset_def)
  next
    case (Inr d')
    then show ?thesis using r[OF Inr] by (simp add: after_extend_def extend_dataset_def)
  qed
  have twice: "after_extend lib (after_extend lib did sz) sz = after_extend lib did sz"
    if g: "logical_length did \<le> sz"
  proof (cases "H5Dset_extent lib did sz")
    case (Inl e)
    then show ?thesis by (simp add: after_extend_def extend_dataset_def)
  next
    case (Inr d')
    then have d': "after_extend lib did sz = d'"
      by (simp add: after_extend_def extend_dataset_def)
    have l: "logical_length d' = sz" using r[OF Inr g] by simp
    show ?thesis
    proof (cases "H5Dset_extent lib d' sz")
      case (Inl e)
      then show ?thesis unfolding d' by (simp add: after_extend_def extend_dataset_def)
    next
      case (Inr d'')
      then have "d'' = d'" using r[OF Inr] l by simp
      then show ?thesis unfolding d' using Inr by (simp add: after_extend_def extend_dataset_def)
    qed
  qed
  show ?thesis using same twice by simp
qed

theorem extend_dataset_idempotent_witness:
  "after_extend spec_store (setup_dataset\<lparr>logical_length := 10\<rparr>) 10
      = setup_dataset\<lparr>logical_length := 10\<rparr>
   \<and> after_extend spec_store (after_extend spec_store (setup_dataset\<lparr>logical_length := 10\<rparr>) 10) 10
      = after_extend spec_store (setup_dataset\<lparr>logical_length := 10\<rparr>) 10
   \<and> extend_dataset spec_store (setup_dataset\<lparr>logical_length := 10\<rparr>) 10
      = Inr (setup_dataset\<lparr>logical_length := 10\<rparr>)"
proof -
  have "extend_dataset spec_store (setup_dataset\<lparr>logical_length := 10\<rparr>) 10
      = Inr (setup_dataset\<lparr>logical_length := 10\<rparr>)"
    by (simp add: extend_dataset_def spec_store_def spec_extend_def setup_dataset_def)
  then show ?thesis
    using extend_dataset_idempotent [OF spec_store_effects(1),
      of "setup_dataset\<lparr>logical_length := 10\<rparr>" 0 10]
    by simp
qed

section \<open>Claim C8: the size of the compression buffer\<close>

text \<open>
  Claim C8. In the deflate program the output buffer has exactly
  \<open>ceil (raw_byte_length * 1.001) + 12\<close> bytes, where the raw byte length
  \<^verbatim>\<open>CHUNK_SIZE * sizeof(int)\<close> is the length of the source handed to \<^verbatim>\<open>compress2\<close>: this
  is the destination capacity \<^verbatim>\<open>compress2\<close> is called with and the length of the
  buffer a successful request hands on. \<^verbatim>\<open>direct_write\<close> takes the overflow branch
  exactly when both allocations succeed and \<^verbatim>\<open>compress2\<close>, called with that capacity
  on the raw chunk at \<^verbatim>\<open>COMPRESSION_LEVEL\<close>, answers \<^verbatim>\<open>Z_BUF_ERROR\<close>. Under the standard
  worst-case bound of deflate, that is for every \<^verbatim>\<open>compress2\<close> that does not answer
  \<^verbatim>\<open>Z_BUF_ERROR\<close> when the destination holds at least \<open>deflate_bound\<close> of the source
  length, the overflow branch is therefore never taken, whatever the offset.
\<close>

theorem compress_overflow_unreachable:
  "(direct_write Writer lib rt did offset = Inl Overflow) =
     (malloc_ok rt \<and> calloc_ok rt \<and>
      fst (compress2 rt (nat \<lceil>real (unat CHUNK_SIZE * unat sizeof_int) * 1.001\<rceil> + 12)
             (buf_bytes (fill_buf (chunk_value offset))) COMPRESSION_LEVEL) = Z_BUF_ERROR)
   \<and> length (buf_bytes (fill_buf (chunk_value offset))) = unat CHUNK_SIZE * unat sizeof_int
   \<and> (\<forall>rq. writer_request rt offset = Inr rq \<longrightarrow>
         length (data_buf rq) = nat \<lceil>real (unat CHUNK_SIZE * unat sizeof_int) * 1.001\<rceil> + 12)
   \<and> ((\<forall>cap src lvl. deflate_bound (length src) \<le> cap \<longrightarrow>
           fst (compress2 rt cap src lvl) \<noteq> Z_BUF_ERROR) \<longrightarrow>
         writer_request rt offset \<noteq> Inl Overflow
         \<and> direct_write Writer lib rt did offset \<noteq> Inl Overflow)"
proof -
  have cap: "nat \<lceil>real (unat CHUNK_SIZE * unat sizeof_int) * 1.001\<rceil> + 12 = 53"
    using deflate_bound_raw by (simp add: deflate_bound_def)
  have dw: "(direct_write Writer lib rt did offset = Inl Overflow) =
      (writer_request rt offset = Inl Overflow)"
    by (auto simp add: direct_write_def chunk_request_def split: sum.splits)
  have c1: "(direct_write Writer lib rt did offset = Inl Overflow) =
     (malloc_ok rt \<and> calloc_ok rt \<and>
      fst (compress2 rt (nat \<lceil>real (unat CHUNK_SIZE * unat sizeof_int) * 1.001\<rceil> + 12)
             (buf_bytes (fill_buf (chunk_value offset))) COMPRESSION_LEVEL) = Z_BUF_ERROR)"
    unfolding cap dw by (rule writer_request_overflow)
  have c2: "length (buf_bytes (fill_buf (chunk_value offset))) = unat CHUNK_SIZE * unat sizeof_int"
    using length_raw_payload by (simp add: CHUNK_SIZE_def sizeof_int_def)
  have c3: "\<forall>rq. writer_request rt offset = Inr rq \<longrightarrow>
         length (data_buf rq) = nat \<lceil>real (unat CHUNK_SIZE * unat sizeof_int) * 1.001\<rceil> + 12"
    unfolding cap using writer_request_size by blast
  have c4: "writer_request rt offset \<noteq> Inl Overflow
         \<and> direct_write Writer lib rt did offset \<noteq> Inl Overflow"
    if h: "\<forall>cap src lvl. deflate_bound (length src) \<le> cap \<longrightarrow>
           fst (compress2 rt cap src lvl) \<noteq> Z_BUF_ERROR"
  proof -
    have "deflate_bound (length (buf_bytes (fill_buf (chunk_value offset)))) \<le> 53"
      unfolding c2 deflate_bound_raw by simp
    then have "fst (compress2 rt 53 (buf_bytes (fill_buf (chunk_value offset))) COMPRESSION_LEVEL)
        \<noteq> Z_BUF_ERROR"
      using h by blast
    then have "writer_request rt offset \<noteq> Inl Overflow"
      unfolding writer_request_overflow by simp
    then show ?thesis unfolding dw by simp
  qed
  show ?thesis using c1 c2 c3 c4 by blast
qed

theorem compress_overflow_unreachable_witness:
  "direct_write Writer unchecked_store (fixed_stream_runtime (replicate 54 0)) setup_dataset 0
     = Inl Overflow
   \<and> direct_write Writer unchecked_store toy_runtime setup_dataset 0 \<noteq> Inl Overflow
   \<and> writer_request toy_runtime 0 =
       Inr \<lparr>filters = 0, chunk_offset = 0, data_size = 53,
            data_buf = (1 # int_bytes (chunk_value 0)) @ replicate 48 0\<rparr>
   \<and> length ((1 # int_bytes (chunk_value 0)) @ replicate 48 (0 :: byte)) =
       nat \<lceil>real (unat CHUNK_SIZE * unat sizeof_int) * 1.001\<rceil> + 12"
proof -
  let ?big = "fixed_stream_runtime (replicate 54 0)"
  have cap: "nat \<lceil>real (unat CHUNK_SIZE * unat sizeof_int) * 1.001\<rceil> + 12 = 53"
    by (simp add: CHUNK_SIZE_def sizeof_int_def)
  have z: "malloc_ok ?big \<and> calloc_ok ?big \<and>
      fst (compress2 ?big (nat \<lceil>real (unat CHUNK_SIZE * unat sizeof_int) * 1.001\<rceil> + 12)
             (buf_bytes (fill_buf (chunk_value 0))) COMPRESSION_LEVEL) = Z_BUF_ERROR"
    unfolding cap by (simp add: fixed_stream_runtime_def)
  have a: "direct_write Writer unchecked_store ?big setup_dataset 0 = Inl Overflow"
    using compress_overflow_unreachable [of unchecked_store ?big setup_dataset 0] z by blast
  have b: "direct_write Writer unchecked_store toy_runtime setup_dataset 0 \<noteq> Inl Overflow"
    using compress_overflow_unreachable [of unchecked_store toy_runtime setup_dataset 0]
      toy_runtime_within_bound by blast
  have c: "length ((1 # int_bytes (chunk_value 0)) @ replicate 48 (0 :: byte)) =
       nat \<lceil>real (unat CHUNK_SIZE * unat sizeof_int) * 1.001\<rceil> + 12"
    using compress_overflow_unreachable [of unchecked_store toy_runtime setup_dataset 0]
      toy_writer_request [of 0] by simp
  show ?thesis using a b c toy_writer_request [of 0] by blast
qed

section \<open>Claim C9: the two programs side by side\<close>

text \<open>
  Both programs fill the same buffer for the same offset: what the raw program hands to
  the store is what the deflate program hands to \<^verbatim>\<open>compress2\<close>.
\<close>

lemma same_raw_buffer:
  assumes "mt_fill_request rt offset = Inr rq" and "writer_request rt' offset = Inr rq'"
  shows "\<exists>out. compress2 rt' 53 (data_buf rq) COMPRESSION_LEVEL = (Z_OK, out)
             \<and> data_buf rq' = out @ replicate (53 - length out) 0"
proof -
  have "data_buf rq = buf_bytes (fill_buf (chunk_value offset))"
    using assms(1)
    by (auto simp add: mt_fill_request_def Let_def split: if_splits)
  then show ?thesis
    using writer_request_padding[OF assms(2)] by auto
qed



section \<open>Claim C10: the chunk-count guard\<close>

text \<open>
  Claim C10. In both programs the guard \<^verbatim>\<open>if (value > INT_MAX)\<close> of \<^verbatim>\<open>direct_write\<close>
  is dead code: \<^verbatim>\<open>value\<close> is an \<^verbatim>\<open>int\<close>, so the comparison is false for every offset
  and the branch that reports too many chunks is never taken. A chunk number beyond
  \<^verbatim>\<open>INT_MAX\<close> is not rejected: the conversion to \<^verbatim>\<open>int\<close> keeps its low 32 bits, read
  as a signed number. Chunk number 2147483648, the first one beyond \<^verbatim>\<open>INT_MAX\<close>, is
  written as ten ints equal to \<open>-2147483648\<close>.
\<close>

theorem chunk_count_guard_dead:
  "\<not> (INT_MAX <s chunk_value offset)
   \<and> writer_request rt offset \<noteq> Inl TooManyChunks
   \<and> mt_fill_request rt offset \<noteq> Inl TooManyChunks
   \<and> direct_write p lib rt did offset \<noteq> Inl TooManyChunks
   \<and> sint (chunk_value offset) = signed_take_bit 31 (int (unat offset div unat CHUNK_SIZE))
   \<and> sint (chunk_value (write_offset 2147483648)) = - 2147483648
   \<and> mt_fill_request (fixed_stream_runtime zeros_deflated) (write_offset 2147483648) =
       Inr \<lparr>filters = 0, chunk_offset = 21474836480, data_size = 40,
            data_buf = buf_bytes (replicate 10 (- 2147483648))\<rparr>"
proof -
  have dw: "direct_write p lib rt did offset \<noteq> Inl TooManyChunks"
    using writer_request_not_TooManyChunks[of rt offset]
      mt_fill_request_not_TooManyChunks[of rt offset]
    by (cases p) (auto simp add: direct_write_def chunk_request_def split: sum.splits)
  have v: "chunk_value (write_offset 2147483648) = - 2147483648"
    by (simp add: chunk_value_def write_offset_def CHUNK_SIZE_def)
  have s: "sint (chunk_value (write_offset 2147483648)) = - 2147483648"
    by (simp add: chunk_value_def write_offset_def CHUNK_SIZE_def)
  have r: "mt_fill_request (fixed_stream_runtime zeros_deflated) (write_offset 2147483648) =
       Inr \<lparr>filters = 0, chunk_offset = 21474836480, data_size = 40,
            data_buf = buf_bytes (replicate 10 (- 2147483648))\<rparr>"
    by (simp add: mt_fill_request_ok runtime_allocates v fill_buf_def CHUNK_SIZE_def)
      (simp add: write_offset_def CHUNK_SIZE_def)
  show ?thesis
    using guard_dead writer_request_not_TooManyChunks mt_fill_request_not_TooManyChunks
      dw sint_chunk_value s r by blast
qed

end
